theory Spec2Isabelle
  imports Main "HOL-Library.Char_ord" "HOL-Library.List_Lexorder"
begin

section \<open>The data-preparation module \<^verbatim>\<open>utils.py\<close>\<close>

text \<open>
  The module has three functions: \<^verbatim>\<open>get_dataframe\<close> (two lookup tables, labelled,
  pooled and grouped by mover), \<^verbatim>\<open>get_dataset\<close> (four frames per mover, checked,
  stacked and collected) and \<^verbatim>\<open>get_loaders\<close> (a random split).
  The first two are embedded below. What they read from disk is a parameter of the
  model: a store of lookup tables and a store of image files. What they print is
  returned as a list of diagnostics, and every exception that leaves a function is a
  value of the type \<open>error\<close>.

  \<^verbatim>\<open>get_loaders\<close> passes the dataset to \<^verbatim>\<open>random_split\<close> and \<^verbatim>\<open>DataLoader\<close> of the
  tensor library. The sizes of its two parts are computed there, in floating point,
  from the fractions, and the members are drawn at random: it has no embedding here.

  The library calls are modelled as far as the module uses them. Both lookup tables
  have the columns \<^verbatim>\<open>mover_id\<close> and \<^verbatim>\<open>file_name\<close>, and no \<^verbatim>\<open>mover_id\<close> is missing
  (\<^verbatim>\<open>groupby\<close> would drop such rows). The tensors handed to \<^verbatim>\<open>torch.cat\<close> have at
  least two dimensions, so its special treatment of empty one-dimensional tensors
  never applies.
\<close>

subsection \<open>Errors and diagnostics\<close>

datatype error =
    CsvFileNotFound
  | CsvParseError
  | ImageOpenError
  | ViewSizeError
  | IlocIndexError
  | CatEmptyList
  | CatDimOutOfRange
  | CatSizeMismatch
  | DatasetSizeMismatch

text \<open>
  The two \<^verbatim>\<open>print\<close> calls of \<^verbatim>\<open>get_dataset\<close>:
  \<^verbatim>\<open>Skipping {mover_id} sequence with length: {len(group_data)}\<close> and
  \<^verbatim>\<open>Image of {mover_id} not found: {image_path}\<close>. A diagnostic keeps the values
  that the message interpolates.
\<close>

datatype 'k diagnostic =
    Skipping 'k nat
  | NotFound 'k string

subsection \<open>Tensors\<close>

text \<open>
  A tensor is its shape and its elements in row-major order. An element of an image
  tensor is kept as the 8-bit grey value \<open>b\<close> that \<^verbatim>\<open>ToTensor\<close> scales to \<open>b / 255\<close>.
\<close>

record 'a tensor =
  shape :: "nat list"
  data :: "'a list"

text \<open>\<^verbatim>\<open>Tensor.view\<close>: the same elements under a new shape of the same size.\<close>

definition view :: "'a tensor \<Rightarrow> nat list \<Rightarrow> error + 'a tensor" where
  "view t new_shape =
     (if prod_list new_shape \<noteq> prod_list (shape t) then Inl ViewSizeError
      else Inr (t\<lparr>shape := new_shape\<rparr>))"

text \<open>
  \<^verbatim>\<open>torch.cat\<close> (\<^verbatim>\<open>torch.concat\<close> is the same function): an empty list is an error,
  the dimension must exist, and the tensors must agree in every other dimension.
  The result runs through the leading index block by block, taking from each tensor
  its slice for that block.
\<close>

definition cat_data :: "'a tensor list \<Rightarrow> nat \<Rightarrow> nat \<Rightarrow> 'a list" where
  "cat_data ts d outer =
     concat (map (\<lambda>i. concat (map (\<lambda>u. take (prod_list (drop d (shape u)))
                                          (drop (i * prod_list (drop d (shape u))) (data u))) ts))
                 [0..<outer])"

definition cat :: "'a tensor list \<Rightarrow> nat \<Rightarrow> error + 'a tensor" where
  "cat ts d =
     (case ts of
        [] \<Rightarrow> Inl CatEmptyList
      | t # rest \<Rightarrow>
          if \<not> d < length (shape t) then Inl CatDimOutOfRange
          else if list_ex (\<lambda>u. length (shape u) \<noteq> length (shape t)
                              \<or> (shape u)[d := 0] \<noteq> (shape t)[d := 0]) rest
          then Inl CatSizeMismatch
          else Inr \<lparr>shape = (shape t)[d := sum_list (map (\<lambda>u. shape u ! d) ts)],
                    data = cat_data ts d (prod_list (take d (shape t)))\<rparr>)"

subsection \<open>Images and the image directory\<close>

text \<open>
  An image is what \<^verbatim>\<open>Image.open(p).convert("L")\<close> returns: a height, a width and one
  grey value for each row and column. \<^verbatim>\<open>ToTensor\<close> makes of it a tensor of shape
  \<open>(1, H, W)\<close>: one channel, then the rows.
\<close>

record image =
  img_height :: nat
  img_width :: nat
  img_pixel :: "nat \<Rightarrow> nat \<Rightarrow> nat"

definition to_tensor :: "image \<Rightarrow> nat tensor" where
  "to_tensor img =
     \<lparr>shape = [1, img_height img, img_width img],
      data = concat (map (\<lambda>r. map (\<lambda>c. img_pixel img r c) [0..<img_width img])
                         [0..<img_height img])\<rparr>"

text \<open>
  Opening a path has three outcomes: \<^verbatim>\<open>FileNotFoundError\<close>, which \<^verbatim>\<open>get_dataset\<close>
  catches; any other exception, which it does not; and an image.
\<close>

datatype file_entry = Missing | Unreadable | Picture image

type_synonym image_store = "string \<Rightarrow> file_entry"

subsection \<open>Lookup tables and \<^verbatim>\<open>get_dataframe\<close>\<close>

text \<open>
  A lookup table is the list of its rows, each with the columns \<^verbatim>\<open>mover_id\<close> and
  \<^verbatim>\<open>file_name\<close>. The mover identifier is of any linearly ordered type, since
  \<^verbatim>\<open>read_csv\<close> infers the column's type and \<^verbatim>\<open>groupby\<close> sorts it.
\<close>

record 'k row =
  mover_id :: 'k
  file_name :: string
  label :: int

datatype 'k csv_entry = NoFile | Malformed | Table "('k \<times> string) list"

type_synonym 'k csv_store = "string \<Rightarrow> 'k csv_entry"

definition read_csv :: "'k csv_store \<Rightarrow> string \<Rightarrow> error + ('k \<times> string) list" where
  "read_csv fs p =
     (case fs p of
        NoFile \<Rightarrow> Inl CsvFileNotFound
      | Malformed \<Rightarrow> Inl CsvParseError
      | Table rows \<Rightarrow> Inr rows)"

text \<open>\<^verbatim>\<open>frame["label"] = l\<close>: every row of the frame gets the label.\<close>

definition add_label :: "int \<Rightarrow> ('k \<times> string) list \<Rightarrow> 'k row list" where
  "add_label l rows = map (\<lambda>(k, f). \<lparr>mover_id = k, file_name = f, label = l\<rparr>) rows"

text \<open>
  \<^verbatim>\<open>frame.groupby("mover_id")\<close>, iterated: one group for each key, the keys in
  ascending order (\<^verbatim>\<open>sort=True\<close> is the default), the rows of a group in the order of
  the frame.
\<close>

definition groupby :: "('k::linorder) row list \<Rightarrow> ('k \<times> 'k row list) list" where
  "groupby rows =
     map (\<lambda>k. (k, filter (\<lambda>r. mover_id r = k) rows)) (sort (remdups (map mover_id rows)))"

definition get_dataframe ::
  "('k::linorder) csv_store \<Rightarrow> string \<Rightarrow> error + ('k \<times> 'k row list) list" where
  "get_dataframe fs path_to_csvs =
     (case read_csv fs (path_to_csvs @ ''movers_images_lookup.csv'') of
        Inl e \<Rightarrow> Inl e
      | Inr real_movers \<Rightarrow>
          (case read_csv fs (path_to_csvs @ ''rejected_movers_images_lookup.csv'') of
             Inl e \<Rightarrow> Inl e
           | Inr bogus_movers \<Rightarrow>
               Inr (groupby (add_label 1 real_movers @ add_label 0 bogus_movers))))"

subsection \<open>\<^verbatim>\<open>get_dataset\<close>\<close>

text \<open>The shape test of the row loop, as written: dimensions 0 and 1 of the tensor.\<close>

definition shape_mismatch :: "nat tensor \<Rightarrow> int \<times> int \<Rightarrow> bool" where
  "shape_mismatch image_tensor image_shape \<longleftrightarrow>
     int (shape image_tensor ! 0) \<noteq> fst image_shape
     \<or> int (shape image_tensor ! 1) \<noteq> snd image_shape"

text \<open>
  The loop over the rows of one group ends in one of three ways: by \<^verbatim>\<open>break\<close>
  (with what it printed), by an exception, or by running to its end (with
  \<^verbatim>\<open>image_tensors\<close>), which is when the \<^verbatim>\<open>else\<close> branch runs.
\<close>

datatype 'k rows_result =
    Broke "'k diagnostic list"
  | Raised error
  | Finished "nat tensor list"

fun rows_loop ::
  "image_store \<Rightarrow> string \<Rightarrow> int \<times> int \<Rightarrow> 'k \<Rightarrow> 'k row list \<Rightarrow> nat tensor list
     \<Rightarrow> 'k rows_result" where
  "rows_loop fs path_to_images image_shape mid [] image_tensors = Finished image_tensors"
| "rows_loop fs path_to_images image_shape mid (r # rs) image_tensors =
     (let image_path = path_to_images @ file_name r in
      case fs image_path of
        Missing \<Rightarrow> Broke [NotFound mid image_path]
      | Unreadable \<Rightarrow> Raised ImageOpenError
      | Picture img \<Rightarrow>
          (let image_tensor = to_tensor img in
           if shape_mismatch image_tensor image_shape then Broke []
           else (case view image_tensor (1 # 1 # shape image_tensor) of
                   Inl e \<Rightarrow> Raised e
                 | Inr v \<Rightarrow>
                     rows_loop fs path_to_images image_shape mid rs (image_tensors @ [v]))))"

text \<open>
  The state of the loop over the movers: the three lists of \<^verbatim>\<open>get_dataset\<close> and what
  has been printed so far. An exception leaves the loop with what was printed.
\<close>

record 'k acc =
  x_tensors :: "nat tensor list"
  y_hat_tensors :: "int tensor list"
  mover_ids :: "'k list"
  printed :: "'k diagnostic list"

definition mover_body ::
  "image_store \<Rightarrow> string \<Rightarrow> int \<times> int \<Rightarrow> 'k acc \<Rightarrow> 'k \<times> 'k row list
     \<Rightarrow> (error \<times> 'k diagnostic list) + 'k acc" where
  "mover_body fs path_to_images image_shape st g =
     (case g of (mid, group_data) \<Rightarrow>
        if length group_data \<noteq> 4
        then Inr (st\<lparr>printed := printed st @ [Skipping mid (length group_data)]\<rparr>)
        else (case rows_loop fs path_to_images image_shape mid group_data [] of
                Broke ds \<Rightarrow> Inr (st\<lparr>printed := printed st @ ds\<rparr>)
              | Raised e \<Rightarrow> Inl (e, printed st)
              | Finished image_tensors \<Rightarrow>
                  (case cat image_tensors 2 of
                     Inl e \<Rightarrow> Inl (e, printed st)
                   | Inr x_tensor \<Rightarrow>
                       (case group_data of
                          [] \<Rightarrow> Inl (IlocIndexError, printed st)
                        | r0 # _ \<Rightarrow>
                            Inr (st\<lparr>x_tensors := x_tensors st @ [x_tensor],
                                    y_hat_tensors := y_hat_tensors st
                                      @ [\<lparr>shape = [1, 1], data = [label r0]\<rparr>],
                                    mover_ids := mover_ids st @ [mid]\<rparr>)))))"

fun movers_loop ::
  "image_store \<Rightarrow> string \<Rightarrow> int \<times> int \<Rightarrow> ('k \<times> 'k row list) list \<Rightarrow> 'k acc
     \<Rightarrow> (error \<times> 'k diagnostic list) + 'k acc" where
  "movers_loop fs path_to_images image_shape [] st = Inr st"
| "movers_loop fs path_to_images image_shape (g # gs) st =
     (case mover_body fs path_to_images image_shape st g of
        Inl e \<Rightarrow> Inl e
      | Inr st' \<Rightarrow> movers_loop fs path_to_images image_shape gs st')"

text \<open>
  \<^verbatim>\<open>TensorDataset(x, y_hat)\<close> asserts that its tensors have the same first dimension;
  its length is that dimension, and its \<open>i\<close>-th item pairs the \<open>i\<close>-th slices.
\<close>

record dataset =
  ds_x :: "nat tensor"
  ds_y :: "int tensor"

definition TensorDataset :: "nat tensor \<Rightarrow> int tensor \<Rightarrow> error + dataset" where
  "TensorDataset x y_hat =
     (if shape x ! 0 \<noteq> shape y_hat ! 0 then Inl DatasetSizeMismatch
      else Inr \<lparr>ds_x = x, ds_y = y_hat\<rparr>)"

definition dataset_len :: "dataset \<Rightarrow> nat" where
  "dataset_len ds = shape (ds_x ds) ! 0"

definition select0 :: "'a tensor \<Rightarrow> nat \<Rightarrow> 'a tensor" where
  "select0 t i =
     \<lparr>shape = tl (shape t),
      data = take (prod_list (tl (shape t))) (drop (i * prod_list (tl (shape t))) (data t))\<rparr>"

definition dataset_item :: "dataset \<Rightarrow> nat \<Rightarrow> nat tensor \<times> int tensor" where
  "dataset_item ds i = (select0 (ds_x ds) i, select0 (ds_y ds) i)"

definition init_acc :: "'k acc" where
  "init_acc = \<lparr>x_tensors = [], y_hat_tensors = [], mover_ids = [], printed = []\<rparr>"

definition get_dataset ::
  "('k \<times> 'k row list) list \<Rightarrow> image_store \<Rightarrow> string \<Rightarrow> int \<times> int
     \<Rightarrow> 'k diagnostic list \<times> (error + dataset \<times> 'k list)" where
  "get_dataset movers_agg fs path_to_images image_shape =
     (case movers_loop fs path_to_images image_shape movers_agg init_acc of
        Inl (e, out) \<Rightarrow> (out, Inl e)
      | Inr st \<Rightarrow>
          (printed st,
           (case cat (x_tensors st) 0 of
              Inl e \<Rightarrow> Inl e
            | Inr x \<Rightarrow>
                (case cat (y_hat_tensors st) 0 of
                   Inl e \<Rightarrow> Inl e
                 | Inr y_hat \<Rightarrow>
                     (case TensorDataset x y_hat of
                        Inl e \<Rightarrow> Inl e
                      | Inr data_set \<Rightarrow> Inr (data_set, mover_ids st))))))"

definition default_image_shape :: "int \<times> int" where
  "default_image_shape = (30, 30)"

subsection \<open>The checks of \<^verbatim>\<open>get_dataset\<close>, as predicates\<close>

text \<open>
  A row passes when its file opens and its tensor passes the shape test; a group
  passes when it has four rows and every row passes. A row is readable when opening
  its file raises nothing but \<^verbatim>\<open>FileNotFoundError\<close>. \<open>row_tensor\<close> is what the row
  loop appends for such a row, and \<open>frame_data\<close> the grey values of the row's image.
\<close>

definition row_ok :: "image_store \<Rightarrow> string \<Rightarrow> int \<times> int \<Rightarrow> 'k row \<Rightarrow> bool" where
  "row_ok fs path_to_images image_shape r =
     (case fs (path_to_images @ file_name r) of
        Picture img \<Rightarrow> \<not> shape_mismatch (to_tensor img) image_shape
      | _ \<Rightarrow> False)"

definition frame_data :: "image_store \<Rightarrow> string \<Rightarrow> 'k row \<Rightarrow> nat list" where
  "frame_data fs path_to_images r =
     (case fs (path_to_images @ file_name r) of
        Picture img \<Rightarrow> data (to_tensor img)
      | _ \<Rightarrow> [])"

definition row_tensor :: "image_store \<Rightarrow> string \<Rightarrow> 'k row \<Rightarrow> nat tensor" where
  "row_tensor fs path_to_images r =
     (case fs (path_to_images @ file_name r) of
        Picture img \<Rightarrow> \<lparr>shape = [1, 1, 1, img_height img, img_width img],
                         data = data (to_tensor img)\<rparr>
      | _ \<Rightarrow> \<lparr>shape = [], data = []\<rparr>)"

definition passes ::
  "image_store \<Rightarrow> string \<Rightarrow> int \<times> int \<Rightarrow> 'k \<times> 'k row list \<Rightarrow> bool" where
  "passes fs path_to_images image_shape g \<longleftrightarrow>
     length (snd g) = 4 \<and> list_all (row_ok fs path_to_images image_shape) (snd g)"

definition row_readable :: "image_store \<Rightarrow> string \<Rightarrow> 'k row \<Rightarrow> bool" where
  "row_readable fs path_to_images r =
     (case fs (path_to_images @ file_name r) of Unreadable \<Rightarrow> False | _ \<Rightarrow> True)"

definition readable :: "image_store \<Rightarrow> string \<Rightarrow> ('k \<times> 'k row list) list \<Rightarrow> bool" where
  "readable fs path_to_images gs \<longleftrightarrow>
     list_all (\<lambda>g. list_all (row_readable fs path_to_images) (snd g)) gs"

text \<open>What a run printed, put after what had been printed before it.\<close>

definition after_printed ::
  "'k diagnostic list \<Rightarrow> (error \<times> 'k diagnostic list) + 'k acc
     \<Rightarrow> (error \<times> 'k diagnostic list) + 'k acc" where
  "after_printed q res =
     (case res of
        Inl (e, out) \<Rightarrow> Inl (e, q @ out)
      | Inr st \<Rightarrow> Inr (st\<lparr>printed := q @ printed st\<rparr>))"

text \<open>
  The last four lines of \<^verbatim>\<open>get_dataset\<close>, applied to the outcome of the loop.
\<close>

definition finish ::
  "(error \<times> 'k diagnostic list) + 'k acc
     \<Rightarrow> 'k diagnostic list \<times> (error + dataset \<times> 'k list)" where
  "finish res =
     (case res of
        Inl (e, out) \<Rightarrow> (out, Inl e)
      | Inr st \<Rightarrow>
          (printed st,
           (case cat (x_tensors st) 0 of
              Inl e \<Rightarrow> Inl e
            | Inr x \<Rightarrow>
                (case cat (y_hat_tensors st) 0 of
                   Inl e \<Rightarrow> Inl e
                 | Inr y_hat \<Rightarrow>
                     (case TensorDataset x y_hat of
                        Inl e \<Rightarrow> Inl e
                      | Inr data_set \<Rightarrow> Inr (data_set, mover_ids st))))))"

text \<open>The label tensor that a mover contributes: \<^verbatim>\<open>torch.tensor([[label]])\<close>.\<close>

definition label_tensor :: "'k \<times> 'k row list \<Rightarrow> int tensor" where
  "label_tensor g = \<lparr>shape = [1, 1], data = [label (hd (snd g))]\<rparr>"

subsection \<open>Example inputs\<close>

definition frame :: "nat \<Rightarrow> nat \<Rightarrow> image" where
  "frame h w = \<lparr>img_height = h, img_width = w, img_pixel = (\<lambda>r c. r * w + c)\<rparr>"

definition ex_images :: image_store where
  "ex_images p =
     (if p = ''i/a.png'' then Picture (frame 2 3)
      else if p = ''i/b.png'' then Picture (frame 2 3)
      else if p = ''i/c.png'' then Picture (frame 3 3)
      else if p = ''i/dot.png'' then Picture (frame 1 1)
      else if p = ''i/wide.png'' then Picture (frame 1 2)
      else if p = ''i/sq.png'' then Picture (frame 30 30)
      else if p = ''i/bad.png'' then Unreadable
      else Missing)"

definition ex_real_table :: "(string \<times> string) list" where
  "ex_real_table =
     [(''m2'', ''a.png''), (''m1'', ''b.png''), (''m2'', ''a.png''), (''m1'', ''b.png''),
      (''m4'', ''a.png''), (''m2'', ''a.png''), (''m1'', ''b.png''), (''m2'', ''a.png''),
      (''m1'', ''b.png''), (''m4'', ''a.png''), (''m4'', ''a.png'')]"

definition ex_bogus_table :: "(string \<times> string) list" where
  "ex_bogus_table =
     [(''m3'', ''a.png''), (''m3'', ''b.png''), (''m3'', ''a.png''), (''m3'', ''b.png'')]"

definition ex_csvs :: "string csv_store" where
  "ex_csvs p =
     (if p = ''d/movers_images_lookup.csv'' then Table ex_real_table
      else if p = ''d/rejected_movers_images_lookup.csv'' then Table ex_bogus_table
      else NoFile)"

definition ex_groups :: "(string \<times> string row list) list" where
  "ex_groups =
     [(''m1'', add_label 1 [(''m1'', ''b.png''), (''m1'', ''b.png''), (''m1'', ''b.png''),
                            (''m1'', ''b.png'')]),
      (''m2'', add_label 1 [(''m2'', ''a.png''), (''m2'', ''a.png''), (''m2'', ''a.png''),
                            (''m2'', ''a.png'')]),
      (''m3'', add_label 0 [(''m3'', ''a.png''), (''m3'', ''b.png''), (''m3'', ''a.png''),
                            (''m3'', ''b.png'')]),
      (''m4'', add_label 1 [(''m4'', ''a.png''), (''m4'', ''a.png''), (''m4'', ''a.png'')])]"

text \<open>
  A mover whose first frame has the wrong height and whose second file is missing, and
  a mover of four frames of height 1 and width 2.
\<close>

definition ex_gone_rows :: "string row list" where
  "ex_gone_rows =
     add_label 1 [(''m5'', ''c.png''), (''m5'', ''gone.png''), (''m5'', ''a.png''),
                  (''m5'', ''a.png'')]"

definition ex_late_rows :: "string row list" where
  "ex_late_rows =
     add_label 0 [(''m6'', ''a.png''), (''m6'', ''b.png''), (''m6'', ''gone.png''),
                  (''m6'', ''bad.png'')]"

definition ex_wide_rows :: "string row list" where
  "ex_wide_rows =
     add_label 1 [(''m7'', ''wide.png''), (''m7'', ''wide.png''), (''m7'', ''wide.png''),
                  (''m7'', ''wide.png'')]"

text \<open>A mover of four frames of height 1 and width 1.\<close>

definition ex_dot_rows :: "string row list" where
  "ex_dot_rows =
     add_label 1 [(''m8'', ''dot.png''), (''m8'', ''dot.png''), (''m8'', ''dot.png''),
                  (''m8'', ''dot.png'')]"

text \<open>
  A mover of four frames of height 30 and width 30, and a mover whose first file cannot
  be opened.
\<close>

definition ex_square_rows :: "string row list" where
  "ex_square_rows =
     add_label 1 [(''m0'', ''sq.png''), (''m0'', ''sq.png''), (''m0'', ''sq.png''),
                  (''m0'', ''sq.png'')]"

definition ex_bad_rows :: "string row list" where
  "ex_bad_rows =
     add_label 0 [(''m6'', ''bad.png''), (''m6'', ''a.png''), (''m6'', ''a.png''),
                  (''m6'', ''a.png'')]"

text \<open>Two lookup tables that share the mover \<open>m9\<close>.\<close>

definition ex_shared_csvs :: "string csv_store" where
  "ex_shared_csvs p =
     (if p = ''d/movers_images_lookup.csv''
      then Table [(''m9'', ''a.png''), (''m9'', ''a.png'')]
      else if p = ''d/rejected_movers_images_lookup.csv''
      then Table [(''m9'', ''b.png''), (''m9'', ''b.png'')]
      else NoFile)"

section \<open>Properties\<close>

subsection \<open>The row loop\<close>

lemma view_unsqueeze: "view t (1 # 1 # shape t) = Inr (t\<lparr>shape := 1 # 1 # shape t\<rparr>)"
  by (simp add: view_def)

lemma shape_to_tensor: "shape (to_tensor img) = [1, img_height img, img_width img]"
  by (simp add: to_tensor_def)

lemma length_concat_const:
  "(\<And>x. x \<in> set xs \<Longrightarrow> length (f x) = n) \<Longrightarrow> length (concat (map f xs)) = length xs * n"
  by (induction xs) auto

lemma length_data_to_tensor: "length (data (to_tensor img)) = img_height img * img_width img"
  by (simp add: to_tensor_def length_concat_const)

lemma rows_loop_Picture:
  "fs (p @ file_name r) = Picture img \<Longrightarrow> \<not> shape_mismatch (to_tensor img) sh \<Longrightarrow>
   rows_loop fs p sh k (r # rs) ts = rows_loop fs p sh k rs (ts @ [row_tensor fs p r])"
  by (simp add: view_def row_tensor_def to_tensor_def Let_def)

lemma rows_loop_ok:
  "list_all (row_ok fs p sh) rs \<Longrightarrow>
   rows_loop fs p sh k (rs @ rest) ts = rows_loop fs p sh k rest (ts @ map (row_tensor fs p) rs)"
proof (induction rs arbitrary: ts)
  case Nil
  then show ?case by simp
next
  case (Cons r rs)
  from Cons.prems have r: "row_ok fs p sh r" and rest: "list_all (row_ok fs p sh) rs"
    by simp_all
  from r obtain img where img: "fs (p @ file_name r) = Picture img"
    and ok: "\<not> shape_mismatch (to_tensor img) sh"
    by (auto simp: row_ok_def split: file_entry.splits)
  have "rows_loop fs p sh k ((r # rs) @ rest) ts =
          rows_loop fs p sh k (rs @ rest) (ts @ [row_tensor fs p r])"
    unfolding append_Cons using img ok by (rule rows_loop_Picture)
  also have "\<dots> = rows_loop fs p sh k rest ((ts @ [row_tensor fs p r]) @ map (row_tensor fs p) rs)"
    by (rule Cons.IH [OF rest])
  finally show ?case by simp
qed

lemma rows_loop_all_ok:
  "list_all (row_ok fs p sh) rs \<Longrightarrow>
   rows_loop fs p sh k rs ts = Finished (ts @ map (row_tensor fs p) rs)"
  using rows_loop_ok [of fs p sh rs k "[]" ts] by simp

lemma rows_loop_first_bad:
  "\<not> row_ok fs p sh r \<Longrightarrow>
   rows_loop fs p sh k (r # rest) ts =
     (case fs (p @ file_name r) of
        Missing \<Rightarrow> Broke [NotFound k (p @ file_name r)]
      | Unreadable \<Rightarrow> Raised ImageOpenError
      | Picture img \<Rightarrow> Broke [])"
  by (auto simp: row_ok_def split: file_entry.splits)

lemma not_all_ok_split:
  "\<not> list_all P rs \<Longrightarrow> \<exists>pre r post. rs = pre @ r # post \<and> list_all P pre \<and> \<not> P r"
proof (induction rs)
  case Nil
  then show ?case by simp
next
  case (Cons a rs)
  show ?case
  proof (cases "P a")
    case True
    with Cons obtain pre r post where "rs = pre @ r # post" "list_all P pre" "\<not> P r"
      by auto
    then have "a # rs = (a # pre) @ r # post \<and> list_all P (a # pre) \<and> \<not> P r"
      using True by simp
    then show ?thesis by blast
  next
    case False
    then have "a # rs = [] @ a # rs \<and> list_all P [] \<and> \<not> P a" by simp
    then show ?thesis by blast
  qed
qed

lemma rows_loop_not_ok:
  assumes "\<not> list_all (row_ok fs p sh) rs"
  shows "(\<exists>ds. rows_loop fs p sh k rs ts = Broke ds) \<or> rows_loop fs p sh k rs ts = Raised ImageOpenError"
proof -
  from not_all_ok_split [OF assms] obtain pre r post
    where rs: "rs = pre @ r # post" and pre: "list_all (row_ok fs p sh) pre"
      and bad: "\<not> row_ok fs p sh r" by blast
  show ?thesis
    unfolding rs rows_loop_ok [OF pre] rows_loop_first_bad [OF bad]
    by (simp split: file_entry.splits)
qed

lemma rows_loop_Finished_iff:
  "rows_loop fs p sh k rs ts = Finished us \<longleftrightarrow>
     list_all (row_ok fs p sh) rs \<and> us = ts @ map (row_tensor fs p) rs"
proof (cases "list_all (row_ok fs p sh) rs")
  case True
  then show ?thesis by (auto simp: rows_loop_all_ok)
next
  case False
  from rows_loop_not_ok [OF False, of k ts] show ?thesis using False by auto
qed

lemma rows_loop_readable:
  assumes "\<not> list_all (row_ok fs p sh) rs"
    and "list_all (row_readable fs p) rs"
  shows "\<exists>ds. rows_loop fs p sh k rs ts = Broke ds"
proof -
  from not_all_ok_split [OF assms(1)] obtain pre r post
    where rs: "rs = pre @ r # post" and pre: "list_all (row_ok fs p sh) pre"
      and bad: "\<not> row_ok fs p sh r" by blast
  from assms(2) have "fs (p @ file_name r) \<noteq> Unreadable"
    by (auto simp: rs row_readable_def)
  then show ?thesis
    unfolding rs rows_loop_ok [OF pre] rows_loop_first_bad [OF bad]
    by (simp split: file_entry.splits)
qed

subsection \<open>The loop over the movers\<close>

lemma get_dataset_finish:
  "get_dataset gs fs p sh = finish (movers_loop fs p sh gs init_acc)"
  by (simp add: get_dataset_def finish_def)

lemma finish_after_printed:
  "snd (finish (after_printed q res)) = snd (finish res)"
  "fst (finish (after_printed q res)) = q @ fst (finish res)"
  by (auto simp: finish_def after_printed_def split: sum.splits prod.splits)

lemma after_printed_Nil: "after_printed [] res = res"
  by (auto simp: after_printed_def split: sum.splits)

lemma after_printed_append:
  "after_printed q (after_printed q' res) = after_printed (q @ q') res"
  by (auto simp: after_printed_def split: sum.splits)

lemma mover_body_printed:
  "mover_body fs p sh st g = after_printed (printed st) (mover_body fs p sh (st\<lparr>printed := []\<rparr>) g)"
  by (cases g)
     (simp add: mover_body_def after_printed_def
           split: rows_result.splits sum.splits list.splits)

lemma movers_loop_printed:
  "movers_loop fs p sh gs st = after_printed (printed st) (movers_loop fs p sh gs (st\<lparr>printed := []\<rparr>))"
proof (induction gs arbitrary: st)
  case Nil
  show ?case by (simp add: after_printed_def)
next
  case (Cons g gs)
  show ?case
  proof (cases "mover_body fs p sh (st\<lparr>printed := []\<rparr>) g")
    case (Inl e)
    then show ?thesis
      using mover_body_printed [of fs p sh st g]
      by (cases e) (simp add: after_printed_def)
  next
    case (Inr st0)
    have b: "mover_body fs p sh st g = Inr (st0\<lparr>printed := printed st @ printed st0\<rparr>)"
      using mover_body_printed [of fs p sh st g] Inr by (simp add: after_printed_def)
    have "movers_loop fs p sh (g # gs) st =
            movers_loop fs p sh gs (st0\<lparr>printed := printed st @ printed st0\<rparr>)"
      by (simp add: b)
    also have "\<dots> = after_printed (printed st @ printed st0)
                       (movers_loop fs p sh gs (st0\<lparr>printed := []\<rparr>))"
      using Cons.IH [of "st0\<lparr>printed := printed st @ printed st0\<rparr>"] by simp
    also have "\<dots> = after_printed (printed st)
                       (after_printed (printed st0) (movers_loop fs p sh gs (st0\<lparr>printed := []\<rparr>)))"
      by (simp add: after_printed_append)
    also have "\<dots> = after_printed (printed st) (movers_loop fs p sh gs st0)"
      using Cons.IH [of st0] by simp
    also have "\<dots> = after_printed (printed st) (movers_loop fs p sh (g # gs) (st\<lparr>printed := []\<rparr>))"
      by (simp add: Inr)
    finally show ?thesis .
  qed
qed

lemma movers_loop_append:
  "movers_loop fs p sh (gs1 @ gs2) st =
     (case movers_loop fs p sh gs1 st of
        Inl e \<Rightarrow> Inl e
      | Inr st1 \<Rightarrow> movers_loop fs p sh gs2 st1)"
  by (induction gs1 arbitrary: st) (auto split: sum.splits)

lemma skipped_group_result:
  assumes skip: "\<And>st. mover_body fs p sh st g = Inr (st\<lparr>printed := printed st @ ds\<rparr>)"
  shows "snd (get_dataset (gs1 @ g # gs2) fs p sh) = snd (get_dataset (gs1 @ gs2) fs p sh)"
proof (cases "movers_loop fs p sh gs1 init_acc")
  case (Inl e)
  then show ?thesis by (simp add: get_dataset_finish movers_loop_append)
next
  case (Inr st1)
  have "movers_loop fs p sh (gs1 @ g # gs2) init_acc =
          movers_loop fs p sh gs2 (st1\<lparr>printed := printed st1 @ ds\<rparr>)"
    by (simp add: movers_loop_append Inr skip)
  also have "\<dots> = after_printed (printed st1 @ ds) (movers_loop fs p sh gs2 (st1\<lparr>printed := []\<rparr>))"
    using movers_loop_printed [of fs p sh gs2 "st1\<lparr>printed := printed st1 @ ds\<rparr>"] by simp
  finally have a: "snd (get_dataset (gs1 @ g # gs2) fs p sh) =
                     snd (finish (movers_loop fs p sh gs2 (st1\<lparr>printed := []\<rparr>)))"
    by (simp add: get_dataset_finish finish_after_printed)
  have "movers_loop fs p sh (gs1 @ gs2) init_acc = movers_loop fs p sh gs2 st1"
    by (simp add: movers_loop_append Inr)
  also have "\<dots> = after_printed (printed st1) (movers_loop fs p sh gs2 (st1\<lparr>printed := []\<rparr>))"
    by (rule movers_loop_printed)
  finally have b: "snd (get_dataset (gs1 @ gs2) fs p sh) =
                     snd (finish (movers_loop fs p sh gs2 (st1\<lparr>printed := []\<rparr>)))"
    by (simp add: get_dataset_finish finish_after_printed)
  show ?thesis by (simp add: a b)
qed

lemma skipped_group_printed:
  assumes skip: "\<And>st. mover_body fs p sh st g = Inr (st\<lparr>printed := printed st @ ds\<rparr>)"
    and reach: "movers_loop fs p sh gs1 init_acc = Inr st1"
  shows "\<exists>rest. fst (get_dataset (gs1 @ g # gs2) fs p sh) = printed st1 @ ds @ rest
               \<and> fst (get_dataset (gs1 @ gs2) fs p sh) = printed st1 @ rest"
proof -
  let ?R = "movers_loop fs p sh gs2 (st1\<lparr>printed := []\<rparr>)"
  have "movers_loop fs p sh (gs1 @ g # gs2) init_acc =
          movers_loop fs p sh gs2 (st1\<lparr>printed := printed st1 @ ds\<rparr>)"
    by (simp add: movers_loop_append reach skip)
  also have "\<dots> = after_printed (printed st1 @ ds) ?R"
    using movers_loop_printed [of fs p sh gs2 "st1\<lparr>printed := printed st1 @ ds\<rparr>"] by simp
  finally have a: "fst (get_dataset (gs1 @ g # gs2) fs p sh) = printed st1 @ ds @ fst (finish ?R)"
    by (simp add: get_dataset_finish finish_after_printed)
  have "movers_loop fs p sh (gs1 @ gs2) init_acc = movers_loop fs p sh gs2 st1"
    by (simp add: movers_loop_append reach)
  also have "\<dots> = after_printed (printed st1) ?R"
    by (rule movers_loop_printed)
  finally have b: "fst (get_dataset (gs1 @ gs2) fs p sh) = printed st1 @ fst (finish ?R)"
    by (simp add: get_dataset_finish finish_after_printed)
  show ?thesis using a b by blast
qed

lemma mover_body_wrong_length:
  "length rows \<noteq> 4 \<Longrightarrow>
   mover_body fs p sh st (k, rows) = Inr (st\<lparr>printed := printed st @ [Skipping k (length rows)]\<rparr>)"
  by (simp add: mover_body_def)

lemma mover_body_passes:
  assumes "passes fs p sh (k, rows)"
  shows "mover_body fs p sh st (k, rows) =
     (case cat (map (row_tensor fs p) rows) 2 of
        Inl e \<Rightarrow> Inl (e, printed st)
      | Inr x \<Rightarrow> Inr (st\<lparr>x_tensors := x_tensors st @ [x],
                        y_hat_tensors := y_hat_tensors st @ [label_tensor (k, rows)],
                        mover_ids := mover_ids st @ [k]\<rparr>))"
proof -
  from assms have len: "length rows = 4" and ok: "list_all (row_ok fs p sh) rows"
    by (simp_all add: passes_def)
  have rl: "rows_loop fs p sh k rows [] = Finished (map (row_tensor fs p) rows)"
    using rows_loop_all_ok [OF ok, of k "[]"] by simp
  show ?thesis
    using len rl
    by (cases rows) (auto simp: mover_body_def label_tensor_def split: sum.splits)
qed

lemma mover_body_fails:
  assumes "\<not> passes fs p sh (k, rows)"
  shows "(\<exists>ds. mover_body fs p sh st (k, rows) = Inr (st\<lparr>printed := printed st @ ds\<rparr>))
       \<or> mover_body fs p sh st (k, rows) = Inl (ImageOpenError, printed st)"
proof (cases "length rows = 4")
  case False
  then have "mover_body fs p sh st (k, rows) =
               Inr (st\<lparr>printed := printed st @ [Skipping k (length rows)]\<rparr>)"
    by (rule mover_body_wrong_length)
  then show ?thesis by blast
next
  case True
  with assms have bad: "\<not> list_all (row_ok fs p sh) rows" by (simp add: passes_def)
  from rows_loop_not_ok [OF bad, of k "[]"] show ?thesis
    using True by (auto simp: mover_body_def)
qed

subsection \<open>The example run\<close>

lemma ex_dataframe: "get_dataframe ex_csvs ''d/'' = Inr ex_groups"
  by code_simp

lemma ex_run:
  "get_dataset ex_groups ex_images ''i/'' (1, 2) =
     ([Skipping ''m4'' 3],
      Inr (\<lparr>ds_x = \<lparr>shape = [3, 1, 4, 2, 3],
                    data = concat (replicate 12 [0, 1, 2, 3, 4, 5])\<rparr>,
            ds_y = \<lparr>shape = [3, 1], data = [1, 1, 0]\<rparr>\<rparr>,
           [''m1'', ''m2'', ''m3'']))"
  by code_simp

subsection \<open>Which movers contribute\<close>

lemma mover_body_fails_readable:
  assumes "\<not> passes fs p sh (k, rows)"
    and "list_all (row_readable fs p) rows"
  shows "\<exists>ds. mover_body fs p sh st (k, rows) = Inr (st\<lparr>printed := printed st @ ds\<rparr>)"
proof (cases "length rows = 4")
  case False
  then have "mover_body fs p sh st (k, rows) =
               Inr (st\<lparr>printed := printed st @ [Skipping k (length rows)]\<rparr>)"
    by (rule mover_body_wrong_length)
  then show ?thesis by blast
next
  case True
  with assms have bad: "\<not> list_all (row_ok fs p sh) rows" by (simp add: passes_def)
  from rows_loop_readable [OF bad assms(2), of k "[]"] show ?thesis
    using True by (auto simp: mover_body_def)
qed

lemma movers_loop_Inr:
  "movers_loop fs p sh gs st = Inr st' \<Longrightarrow>
     mover_ids st' = mover_ids st @ map fst (filter (passes fs p sh) gs)
   \<and> y_hat_tensors st' = y_hat_tensors st @ map label_tensor (filter (passes fs p sh) gs)
   \<and> (\<exists>xs. x_tensors st' = x_tensors st @ xs
          \<and> list_all2 (\<lambda>x g. cat (map (row_tensor fs p) (snd g)) 2 = Inr x) xs
               (filter (passes fs p sh) gs))"
proof (induction gs arbitrary: st)
  case Nil
  then show ?case by simp
next
  case (Cons g gs)
  obtain k rows where g: "g = (k, rows)" by (cases g)
  from Cons.prems obtain st1 where b: "mover_body fs p sh st g = Inr st1"
    and l: "movers_loop fs p sh gs st1 = Inr st'"
    by (auto split: sum.splits)
  note IH = Cons.IH [OF l]
  show ?case
  proof (cases "passes fs p sh g")
    case True
    from b mover_body_passes [of fs p sh k rows st] True g
    obtain x where x: "cat (map (row_tensor fs p) rows) 2 = Inr x"
      and st1: "st1 = st\<lparr>x_tensors := x_tensors st @ [x],
                          y_hat_tensors := y_hat_tensors st @ [label_tensor g],
                          mover_ids := mover_ids st @ [k]\<rparr>"
      by (auto split: sum.splits)
    from IH obtain xs where xs: "x_tensors st' = x_tensors st1 @ xs"
      and all2: "list_all2 (\<lambda>x g. cat (map (row_tensor fs p) (snd g)) 2 = Inr x) xs
                   (filter (passes fs p sh) gs)"
      by blast
    have "x_tensors st' = x_tensors st @ (x # xs)
          \<and> list_all2 (\<lambda>x g. cat (map (row_tensor fs p) (snd g)) 2 = Inr x) (x # xs)
               (filter (passes fs p sh) (g # gs))"
      using xs all2 True x g by (simp add: st1)
    then have ex: "\<exists>xs. x_tensors st' = x_tensors st @ xs
          \<and> list_all2 (\<lambda>x g. cat (map (row_tensor fs p) (snd g)) 2 = Inr x) xs
               (filter (passes fs p sh) (g # gs))"
      by blast
    from IH True g have "mover_ids st' = mover_ids st @ map fst (filter (passes fs p sh) (g # gs))"
      and "y_hat_tensors st' = y_hat_tensors st @ map label_tensor (filter (passes fs p sh) (g # gs))"
      by (simp_all add: st1)
    with ex show ?thesis by blast
  next
    case False
    from mover_body_fails [of fs p sh k rows st] False g b
    obtain ds where "st1 = st\<lparr>printed := printed st @ ds\<rparr>" by auto
    then show ?thesis using IH False by simp
  qed
qed

lemma movers_loop_none_pass:
  "filter (passes fs p sh) gs = [] \<Longrightarrow> readable fs p gs \<Longrightarrow>
   \<exists>ds. movers_loop fs p sh gs st = Inr (st\<lparr>printed := printed st @ ds\<rparr>)"
proof (induction gs arbitrary: st)
  case Nil
  have "movers_loop fs p sh [] st = Inr (st\<lparr>printed := printed st @ []\<rparr>)" by simp
  then show ?case by blast
next
  case (Cons g gs)
  obtain k rows where g: "g = (k, rows)" by (cases g)
  from Cons.prems have np: "\<not> passes fs p sh (k, rows)" and rest: "filter (passes fs p sh) gs = []"
    by (auto simp: g split: if_splits)
  from Cons.prems have rd: "list_all (row_readable fs p) rows"
    and rds: "readable fs p gs"
    by (simp_all add: readable_def g)
  from mover_body_fails_readable [OF np rd, of st] obtain ds
    where b: "mover_body fs p sh st g = Inr (st\<lparr>printed := printed st @ ds\<rparr>)"
    by (auto simp: g)
  from Cons.IH [OF rest rds, of "st\<lparr>printed := printed st @ ds\<rparr>"] obtain ds'
    where "movers_loop fs p sh gs (st\<lparr>printed := printed st @ ds\<rparr>)
             = Inr (st\<lparr>printed := printed st @ ds @ ds'\<rparr>)"
    by auto
  then have "movers_loop fs p sh (g # gs) st = Inr (st\<lparr>printed := printed st @ (ds @ ds')\<rparr>)"
    by (simp add: b)
  then show ?case by blast
qed

lemma get_dataset_Inr_ids:
  assumes "get_dataset gs fs p sh = (out, Inr (ds, ids))"
  shows "ids = map fst (filter (passes fs p sh) gs) \<and> ids \<noteq> []"
proof -
  from assms obtain st where l: "movers_loop fs p sh gs init_acc = Inr st"
    and ids: "ids = mover_ids st" and c: "\<exists>x. cat (x_tensors st) 0 = Inr x"
    by (auto simp: get_dataset_def split: sum.splits prod.splits)
  from movers_loop_Inr [OF l] obtain xs where
    m: "mover_ids st = map fst (filter (passes fs p sh) gs)"
    and x: "x_tensors st = xs"
    and a: "list_all2 (\<lambda>x g. cat (map (row_tensor fs p) (snd g)) 2 = Inr x) xs
               (filter (passes fs p sh) gs)"
    by (auto simp: init_acc_def)
  from c have "x_tensors st \<noteq> []" by (auto simp: cat_def)
  with x a have "filter (passes fs p sh) gs \<noteq> []" by auto
  with m ids show ?thesis by simp
qed

lemma passes_channel:
  assumes "passes fs p sh g"
  shows "fst sh = 1"
proof -
  from assms obtain r where "r \<in> set (snd g)" and "row_ok fs p sh r"
    by (cases "snd g") (auto simp: passes_def)
  then show ?thesis
    by (auto simp: row_ok_def shape_mismatch_def to_tensor_def split: file_entry.splits)
qed

lemma get_dataset_none_pass:
  assumes none: "filter (passes fs p sh) gs = []"
    and loop: "movers_loop fs p sh gs init_acc = Inr st"
  shows "get_dataset gs fs p sh = (printed st, Inl CatEmptyList)"
proof -
  from movers_loop_Inr [OF loop] none have "x_tensors st = []"
    by (auto simp: init_acc_def)
  then show ?thesis by (simp add: get_dataset_def loop cat_def)
qed

lemma get_dataset_none_pass_readable:
  assumes none: "filter (passes fs p sh) gs = []" and rd: "readable fs p gs"
  shows "snd (get_dataset gs fs p sh) = Inl CatEmptyList"
proof -
  from movers_loop_none_pass [OF none rd, of init_acc] obtain st
    where "movers_loop fs p sh gs init_acc = Inr st" by blast
  from get_dataset_none_pass [OF none this] show ?thesis by simp
qed

lemma mover_body_first_missing:
  assumes len: "length (pre @ r # post) = 4"
    and pre: "list_all (row_ok fs p sh) pre"
    and miss: "fs (p @ file_name r) = Missing"
  shows "mover_body fs p sh st (k, pre @ r # post) =
           Inr (st\<lparr>printed := printed st @ [NotFound k (p @ file_name r)]\<rparr>)"
proof -
  have bad: "\<not> row_ok fs p sh r" by (simp add: row_ok_def miss)
  have "rows_loop fs p sh k (pre @ r # post) [] = Broke [NotFound k (p @ file_name r)]"
    unfolding rows_loop_ok [OF pre] rows_loop_first_bad [OF bad] by (simp add: miss)
  then show ?thesis using len by (simp add: mover_body_def)
qed

lemma missing_not_passes:
  assumes "r \<in> set rows" and "fs (p @ file_name r) = Missing"
  shows "\<not> passes fs p sh (k, rows)"
proof
  assume "passes fs p sh (k, rows)"
  then have "row_ok fs p sh r" using assms(1) by (simp add: passes_def list_all_iff)
  then show False by (simp add: row_ok_def assms(2))
qed

lemma silent_group_result:
  assumes skip: "\<And>st. mover_body fs p sh st g = Inr st"
  shows "get_dataset (gs1 @ g # gs2) fs p sh = get_dataset (gs1 @ gs2) fs p sh"
proof -
  have "movers_loop fs p sh (gs1 @ g # gs2) init_acc = movers_loop fs p sh (gs1 @ gs2) init_acc"
    by (simp add: movers_loop_append skip split: sum.splits)
  then show ?thesis by (simp add: get_dataset_finish)
qed

lemma mover_body_first_mismatch:
  assumes len: "length (pre @ q # post) = 4"
    and pre: "list_all (row_ok fs p sh) pre"
    and img: "fs (p @ file_name q) = Picture img"
    and mm: "shape_mismatch (to_tensor img) sh"
  shows "mover_body fs p sh st (k, pre @ q # post) = Inr st"
proof -
  have bad: "\<not> row_ok fs p sh q" by (simp add: row_ok_def img mm)
  have "rows_loop fs p sh k (pre @ q # post) [] = Broke []"
    unfolding rows_loop_ok [OF pre] rows_loop_first_bad [OF bad] by (simp add: img)
  then show ?thesis using len by (simp add: mover_body_def)
qed



subsection \<open>Grouping and labels\<close>

lemma fst_groupby: "map fst (groupby rows) = sort (remdups (map mover_id rows))"
  by (simp add: groupby_def comp_def)

lemma groupby_keys_sorted: "sorted (map fst (groupby rows)) \<and> distinct (map fst (groupby rows))"
  by (simp add: fst_groupby)

lemma groupby_member:
  assumes "g \<in> set (groupby rows)"
  shows "snd g = filter (\<lambda>r. mover_id r = fst g) rows \<and> fst g \<in> mover_id ` set rows"
  using assms by (auto simp: groupby_def)

lemma groupby_nonempty:
  assumes "g \<in> set (groupby rows)"
  shows "snd g \<noteq> []"
proof -
  from groupby_member [OF assms] obtain r where "r \<in> set rows" "mover_id r = fst g"
    and s: "snd g = filter (\<lambda>r. mover_id r = fst g) rows"
    by auto
  then have "r \<in> set (snd g)" by simp
  then show ?thesis by auto
qed

lemma add_label_label: "r \<in> set (add_label l rows) \<Longrightarrow> label r = l"
  by (auto simp: add_label_def)

lemma add_label_ids: "mover_id ` set (add_label l rows) = fst ` set rows"
  by (force simp: add_label_def image_iff split: prod.splits)

lemma filter_add_label_empty:
  "k \<notin> fst ` set rows \<Longrightarrow> filter (\<lambda>r. mover_id r = k) (add_label l rows) = []"
  using add_label_ids [of l rows] by (auto simp: filter_empty_conv)

lemma hd_filter_label:
  assumes "k \<in> fst ` set rows"
  shows "label (hd (filter (\<lambda>r. mover_id r = k) (add_label l rows) @ rest)) = l"
proof -
  from assms have "k \<in> mover_id ` set (add_label l rows)" by (simp add: add_label_ids)
  then have ne: "filter (\<lambda>r. mover_id r = k) (add_label l rows) \<noteq> []"
    by (auto simp: filter_empty_conv)
  then have "hd (filter (\<lambda>r. mover_id r = k) (add_label l rows) @ rest)
               = hd (filter (\<lambda>r. mover_id r = k) (add_label l rows))"
    by (simp add: hd_append)
  moreover from ne have "hd (filter (\<lambda>r. mover_id r = k) (add_label l rows))
               \<in> set (filter (\<lambda>r. mover_id r = k) (add_label l rows))"
    by (rule hd_in_set)
  ultimately have "hd (filter (\<lambda>r. mover_id r = k) (add_label l rows) @ rest)
               \<in> set (add_label l rows)"
    by simp
  then show ?thesis by (rule add_label_label)
qed

lemma get_dataframe_tables:
  assumes "csvs (d @ ''movers_images_lookup.csv'') = Table real"
    and "csvs (d @ ''rejected_movers_images_lookup.csv'') = Table bogus"
  shows "get_dataframe csvs d = Inr (groupby (add_label 1 real @ add_label 0 bogus))"
  using assms by (simp add: get_dataframe_def read_csv_def)

lemma get_dataframe_Inr:
  assumes "get_dataframe csvs d = Inr gs"
  shows "\<exists>rows. gs = groupby rows"
  using assms by (auto simp: get_dataframe_def split: sum.splits)

lemma group_labels:
  assumes g: "g \<in> set (groupby (add_label 1 real @ add_label 0 bogus))"
  shows "(fst g \<notin> fst ` set bogus \<longrightarrow> (\<forall>r\<in>set (snd g). label r = 1))
       \<and> (fst g \<notin> fst ` set real \<longrightarrow> (\<forall>r\<in>set (snd g). label r = 0))
       \<and> label (hd (snd g)) = (if fst g \<in> fst ` set real then 1 else 0)"
proof -
  let ?k = "fst g"
  let ?A = "filter (\<lambda>r. mover_id r = ?k) (add_label 1 real)"
  let ?B = "filter (\<lambda>r. mover_id r = ?k) (add_label 0 bogus)"
  from groupby_member [OF g] have s: "snd g = ?A @ ?B" by simp
  from groupby_nonempty [OF g] have ne: "snd g \<noteq> []" .
  have a: "\<forall>r\<in>set (snd g). label r = 1" if "?k \<notin> fst ` set bogus"
    using filter_add_label_empty [OF that, of 0] s by (auto dest: add_label_label)
  have b: "\<forall>r\<in>set (snd g). label r = 0" if "?k \<notin> fst ` set real"
    using filter_add_label_empty [OF that, of 1] s by (auto dest: add_label_label)
  have c: "label (hd (snd g)) = (if ?k \<in> fst ` set real then 1 else 0)"
  proof (cases "?k \<in> fst ` set real")
    case True
    then show ?thesis using hd_filter_label [OF True, of 1 ?B] s by simp
  next
    case False
    from b [OF False] ne have "label (hd (snd g)) = 0" by (cases "snd g") auto
    with False show ?thesis by simp
  qed
  from a b c show ?thesis by blast
qed

lemma mover_body_label:
  assumes b: "mover_body fs p sh st g = Inr st'" and ch: "mover_ids st' \<noteq> mover_ids st"
  shows "y_hat_tensors st' = y_hat_tensors st @ [label_tensor g]"
proof -
  obtain k rows where g: "g = (k, rows)" by (cases g)
  have ps: "passes fs p sh (k, rows)"
  proof (rule ccontr)
    assume "\<not> passes fs p sh (k, rows)"
    from mover_body_fails [OF this, of st] b ch show False by (auto simp: g)
  qed
  from mover_body_passes [OF ps, of st] b show ?thesis
    by (auto simp: g split: sum.splits)
qed

lemma ex_pool: "groupby (add_label 1 ex_real_table @ add_label 0 ex_bogus_table) = ex_groups"
  by code_simp


subsection \<open>Concatenation and the returned dataset\<close>

lemma cat_Inr_D:
  assumes "cat ts d = Inr X"
  shows "ts \<noteq> []" and "d < length (shape (hd ts))"
    and "\<And>u. u \<in> set ts \<Longrightarrow> length (shape u) = length (shape (hd ts))
                               \<and> (shape u)[d := 0] = (shape (hd ts))[d := 0]"
    and "X = \<lparr>shape = (shape (hd ts))[d := sum_list (map (\<lambda>u. shape u ! d) ts)],
              data = cat_data ts d (prod_list (take d (shape (hd ts))))\<rparr>"
  using assms
  by (auto simp: cat_def list_ex_iff split: list.splits if_splits)

lemma cat_same_shape:
  assumes "ts \<noteq> []" and "d < length s" and "\<And>u. u \<in> set ts \<Longrightarrow> shape u = s"
  shows "\<exists>X. cat ts d = Inr X"
  using assms by (cases ts) (auto simp: cat_def list_ex_iff)

lemma cat_data_outer1:
  assumes "\<And>u. u \<in> set ts \<Longrightarrow> length (data u) \<le> prod_list (drop d (shape u))"
  shows "cat_data ts d (Suc 0) = concat (map data ts)"
proof -
  have *: "take (prod_list (drop d (shape u))) (data u) = data u" if "u \<in> set ts" for u
    using assms [OF that] by simp
  have m: "map (\<lambda>u. take (prod_list (drop d (shape u))) (data u)) ts = map data ts"
    by (rule map_cong [OF refl]) (rule *)
  have "cat_data ts d (Suc 0)
          = concat (map (\<lambda>u. take (prod_list (drop d (shape u))) (data u)) ts)"
    by (simp add: cat_data_def)
  then show ?thesis unfolding m .
qed

lemma concat_slice:
  "(\<And>x. x \<in> set xss \<Longrightarrow> length x = n) \<Longrightarrow> i < length xss \<Longrightarrow>
   take n (drop (i * n) (concat xss)) = xss ! i"
proof (induction xss arbitrary: i)
  case Nil
  then show ?case by simp
next
  case (Cons a xss)
  have la: "length a = n" using Cons.prems(1) by simp
  show ?case
  proof (cases i)
    case 0
    then show ?thesis using la by simp
  next
    case (Suc j)
    have "take n (drop (j * n) (concat xss)) = xss ! j"
      using Cons.IH [of j] Cons.prems Suc by simp
    then show ?thesis using la Suc by simp
  qed
qed

lemma sum_list_ones: "(\<And>u. u \<in> set ts \<Longrightarrow> f u = Suc 0) \<Longrightarrow> sum_list (map f ts) = length ts"
  by (induction ts) auto

lemma cat0_uniform:
  assumes c: "cat ts 0 = Inr X"
    and sh: "\<And>u. u \<in> set ts \<Longrightarrow> \<exists>s. shape u = 1 # s \<and> length (data u) = prod_list s"
  shows "\<exists>s. (\<forall>u\<in>set ts. shape u = 1 # s \<and> length (data u) = prod_list s)
             \<and> X = \<lparr>shape = length ts # s, data = concat (map data ts)\<rparr>"
proof -
  note D = cat_Inr_D [OF c]
  from D(1) have h: "hd ts \<in> set ts" by simp
  from sh [OF h] obtain s where s: "shape (hd ts) = 1 # s" by blast
  have all: "shape u = 1 # s \<and> length (data u) = prod_list s" if "u \<in> set ts" for u
  proof -
    from sh [OF that] obtain s' where s': "shape u = 1 # s'" "length (data u) = prod_list s'"
      by blast
    from D(3) [OF that] have "s' = s" by (simp add: s s')
    with s' show ?thesis by simp
  qed
  have sum: "sum_list (map (\<lambda>u. shape u ! 0) ts) = length ts"
    by (rule sum_list_ones) (simp add: all)
  have dat: "cat_data ts 0 (Suc 0) = concat (map data ts)"
    by (rule cat_data_outer1) (simp add: all)
  have "X = \<lparr>shape = length ts # s, data = concat (map data ts)\<rparr>"
    using D(4) by (simp add: s sum dat)
  with all show ?thesis by blast
qed

lemma select0_cat0:
  assumes all: "\<And>u. u \<in> set ts \<Longrightarrow> shape u = 1 # s \<and> length (data u) = prod_list s"
    and i: "i < length ts"
  shows "select0 \<lparr>shape = length ts # s, data = concat (map data ts)\<rparr> i
           = \<lparr>shape = s, data = data (ts ! i)\<rparr>"
proof -
  have "take (prod_list s) (drop (i * prod_list s) (concat (map data ts))) = map data ts ! i"
    by (rule concat_slice) (auto simp: all i)
  then show ?thesis using i by (simp add: select0_def)
qed

lemma row_ok_tensor:
  assumes "row_ok fs p sh r"
  shows "\<exists>w. shape (row_tensor fs p r) = [1, 1, 1, nat (snd sh), w]
            \<and> data (row_tensor fs p r) = frame_data fs p r
            \<and> length (frame_data fs p r) = nat (snd sh) * w"
proof -
  from assms obtain img where img: "fs (p @ file_name r) = Picture img"
    and ok: "\<not> shape_mismatch (to_tensor img) sh"
    by (auto simp: row_ok_def split: file_entry.splits)
  from ok have h: "img_height img = nat (snd sh)"
    by (auto simp: shape_mismatch_def to_tensor_def)
  have "shape (row_tensor fs p r) = [1, 1, 1, nat (snd sh), img_width img]
            \<and> data (row_tensor fs p r) = frame_data fs p r
            \<and> length (frame_data fs p r) = nat (snd sh) * img_width img"
    using length_data_to_tensor [of img]
    by (simp add: row_tensor_def frame_data_def img h)
  then show ?thesis by blast
qed

lemma stack_rows:
  assumes ok: "list_all (row_ok fs p sh) rows"
    and c: "cat (map (row_tensor fs p) rows) 2 = Inr x"
  shows "\<exists>w. shape x = [1, 1, length rows, nat (snd sh), w]
            \<and> data x = concat (map (frame_data fs p) rows)
            \<and> length (data x) = length rows * (nat (snd sh) * w)"
proof -
  let ?ts = "map (row_tensor fs p) rows"
  note D = cat_Inr_D [OF c]
  from D(1) have ne: "rows \<noteq> []" by simp
  then have h: "hd rows \<in> set rows" by simp
  have okr: "row_ok fs p sh r" if "r \<in> set rows" for r
    using ok that by (simp add: list_all_iff)
  from row_ok_tensor [OF okr [OF h]] obtain w
    where w: "shape (row_tensor fs p (hd rows)) = [1, 1, 1, nat (snd sh), w]" by blast
  have hd: "hd ?ts = row_tensor fs p (hd rows)" using ne by (simp add: hd_map)
  have all: "shape (row_tensor fs p r) = [1, 1, 1, nat (snd sh), w]
             \<and> data (row_tensor fs p r) = frame_data fs p r
             \<and> length (frame_data fs p r) = nat (snd sh) * w" if "r \<in> set rows" for r
  proof -
    from row_ok_tensor [OF okr [OF that]] obtain w'
      where w': "shape (row_tensor fs p r) = [1, 1, 1, nat (snd sh), w']"
        "data (row_tensor fs p r) = frame_data fs p r"
        "length (frame_data fs p r) = nat (snd sh) * w'" by blast
    from that have "row_tensor fs p r \<in> set ?ts" by simp
    from D(3) [OF this] have "w' = w" by (simp add: hd w w')
    with w' show ?thesis by simp
  qed
  have "sum_list (map (\<lambda>u. shape u ! 2) ?ts) = length ?ts"
    by (rule sum_list_ones) (auto simp: all)
  then have sum: "sum_list (map (\<lambda>u. shape u ! 2) ?ts) = length rows" by simp
  have dat: "cat_data ?ts 2 (Suc 0) = concat (map data ?ts)"
    by (rule cat_data_outer1) (auto simp: all)
  have md: "map data ?ts = map (frame_data fs p) rows"
    by (simp add: all)
  have one: "prod_list (take 2 [1, 1, 1, nat (snd sh), w]) = Suc 0" by (simp add: numeral_2_eq_2)
  have "x = \<lparr>shape = [1, 1, 1, nat (snd sh), w][2 := length rows],
              data = cat_data ?ts 2 (Suc 0)\<rparr>"
    using D(4) unfolding hd w sum one .
  then have x: "x = \<lparr>shape = [1, 1, length rows, nat (snd sh), w],
                data = concat (map (frame_data fs p) rows)\<rparr>"
    unfolding dat md by (simp add: numeral_2_eq_2)
  have len: "length (concat (map (frame_data fs p) rows)) = length rows * (nat (snd sh) * w)"
    by (rule length_concat_const) (simp add: all)
  from x len show ?thesis by simp
qed

lemma stack_rows_same_shape:
  assumes ok: "list_all (row_ok fs p sh) rows" and ne: "rows \<noteq> []"
    and same: "\<And>r. r \<in> set rows \<Longrightarrow> shape (row_tensor fs p r) = shape (row_tensor fs p (hd rows))"
  shows "\<exists>x. cat (map (row_tensor fs p) rows) 2 = Inr x"
proof (rule cat_same_shape)
  show "map (row_tensor fs p) rows \<noteq> []" using ne by simp
  from ne have h: "hd rows \<in> set rows" by simp
  from ok h have "row_ok fs p sh (hd rows)" by (simp add: list_all_iff)
  from row_ok_tensor [OF this] obtain w
    where "shape (row_tensor fs p (hd rows)) = [1, 1, 1, nat (snd sh), w]" by blast
  then show "2 < length (shape (row_tensor fs p (hd rows)))" by simp
  fix u assume "u \<in> set (map (row_tensor fs p) rows)"
  then obtain r where "r \<in> set rows" "u = row_tensor fs p r" by auto
  then show "shape u = shape (row_tensor fs p (hd rows))" using same by simp
qed

lemma concat_label_data:
  "concat (map data (map label_tensor ps)) = map (\<lambda>g. label (hd (snd g))) ps"
  by (induction ps) (simp_all add: label_tensor_def)

lemma get_dataset_Inr_structure:
  assumes r: "get_dataset gs fs p sh = (out, Inr (ds, ids))"
  shows "\<exists>xs s. list_all2 (\<lambda>x g. cat (map (row_tensor fs p) (snd g)) 2 = Inr x) xs
                   (filter (passes fs p sh) gs)
               \<and> (\<forall>u\<in>set xs. shape u = 1 # s \<and> length (data u) = prod_list s)
               \<and> ds_x ds = \<lparr>shape = length (filter (passes fs p sh) gs) # s,
                             data = concat (map data xs)\<rparr>
               \<and> ds_y ds = \<lparr>shape = [length (filter (passes fs p sh) gs), 1],
                             data = map (\<lambda>g. label (hd (snd g))) (filter (passes fs p sh) gs)\<rparr>
               \<and> ids = map fst (filter (passes fs p sh) gs)"
proof -
  let ?ps = "filter (passes fs p sh) gs"
  from r obtain st X Y where l: "movers_loop fs p sh gs init_acc = Inr st"
    and cx: "cat (x_tensors st) 0 = Inr X" and cy: "cat (y_hat_tensors st) 0 = Inr Y"
    and td: "TensorDataset X Y = Inr ds" and ids: "ids = mover_ids st"
    by (auto simp: get_dataset_def split: sum.splits prod.splits)
  from td have ds: "ds_x ds = X" "ds_y ds = Y"
    by (auto simp: TensorDataset_def split: if_splits)
  from movers_loop_Inr [OF l] obtain xs where
    m: "mover_ids st = map fst ?ps"
    and y: "y_hat_tensors st = map label_tensor ?ps"
    and x: "x_tensors st = xs"
    and a: "list_all2 (\<lambda>x g. cat (map (row_tensor fs p) (snd g)) 2 = Inr x) xs ?ps"
    by (auto simp: init_acc_def)
  have len: "length xs = length ?ps" using a by (rule list_all2_lengthD)
  have xsh: "\<exists>s. shape u = 1 # s \<and> length (data u) = prod_list s" if "u \<in> set xs" for u
  proof -
    from that obtain i where i: "i < length xs" "u = xs ! i" by (auto simp: in_set_conv_nth)
    let ?g = "?ps ! i"
    from list_all2_nthD [OF a i(1)] have c: "cat (map (row_tensor fs p) (snd ?g)) 2 = Inr u"
      by (simp add: i(2))
    from i len have "i < length ?ps" by simp
    then have "?g \<in> set ?ps" by (rule nth_mem)
    then have "passes fs p sh ?g" by simp
    then have ok: "list_all (row_ok fs p sh) (snd ?g)" by (simp add: passes_def)
    from stack_rows [OF ok c] obtain w
      where "shape u = [1, 1, length (snd ?g), nat (snd sh), w]"
        "length (data u) = length (snd ?g) * (nat (snd sh) * w)" by blast
    then have "shape u = 1 # [1, length (snd ?g), nat (snd sh), w]
               \<and> length (data u) = prod_list [1, length (snd ?g), nat (snd sh), w]"
      by simp
    then show ?thesis by blast
  qed
  from cat0_uniform [OF cx [unfolded x] xsh] obtain s
    where s: "\<forall>u\<in>set xs. shape u = 1 # s \<and> length (data u) = prod_list s"
      and X: "X = \<lparr>shape = length xs # s, data = concat (map data xs)\<rparr>"
    by blast
  have ysh: "\<exists>s. shape u = 1 # s \<and> length (data u) = prod_list s"
    if "u \<in> set (map label_tensor ?ps)" for u
    using that by (auto simp: label_tensor_def)
  from cat0_uniform [OF cy [unfolded y] ysh] obtain s'
    where s': "\<forall>u\<in>set (map label_tensor ?ps). shape u = 1 # s' \<and> length (data u) = prod_list s'"
      and Y: "Y = \<lparr>shape = length (map label_tensor ?ps) # s',
                    data = concat (map data (map label_tensor ?ps))\<rparr>"
    by blast
  from cat_Inr_D(1) [OF cy] y have "?ps \<noteq> []" by auto
  then obtain g where "g \<in> set ?ps" by (cases ?ps) auto
  then have "label_tensor g \<in> set (map label_tensor ?ps)" unfolding set_map by (rule imageI)
  with s' have "shape (label_tensor g) = 1 # s'" by blast
  then have s'1: "s' = [1]" by (simp add: label_tensor_def)
  have yd: "concat (map data (map label_tensor ?ps)) = map (\<lambda>g. label (hd (snd g))) ?ps"
    by (rule concat_label_data)
  have Y': "Y = \<lparr>shape = [length ?ps, 1], data = map (\<lambda>g. label (hd (snd g))) ?ps\<rparr>"
    using Y unfolding yd s'1 by simp
  from a s X Y' ds ids m len show ?thesis by auto
qed

lemma take1_drop: "i < length xs \<Longrightarrow> take (Suc 0) (drop i xs) = [xs ! i]"
  by (simp add: Cons_nth_drop_Suc [symmetric])


section \<open>The claims\<close>

text \<open>
  C2. A mover group whose number of rows is not 4 adds no sample: the body of the loop
  only prints \<^verbatim>\<open>Skipping {mover_id} sequence with length: {n}\<close> and goes on to the
  next mover. What \<^verbatim>\<open>get_dataset\<close> returns is what it returns without that group, and
  whenever the loop reaches the group, the message is printed at its place.
\<close>

theorem wrong_length_skipped:
  "length rows \<noteq> 4 \<Longrightarrow>
     mover_body fs p sh st (k, rows) =
       Inr (st\<lparr>printed := printed st @ [Skipping k (length rows)]\<rparr>)
     \<and> snd (get_dataset (gs1 @ (k, rows) # gs2) fs p sh) = snd (get_dataset (gs1 @ gs2) fs p sh)
     \<and> (\<forall>st1. movers_loop fs p sh gs1 init_acc = Inr st1 \<longrightarrow>
          (\<exists>rest. fst (get_dataset (gs1 @ (k, rows) # gs2) fs p sh)
                     = printed st1 @ Skipping k (length rows) # rest
                 \<and> fst (get_dataset (gs1 @ gs2) fs p sh) = printed st1 @ rest))"
proof -
  assume len: "length rows \<noteq> 4"
  have skip: "\<And>st. mover_body fs p sh st (k, rows) =
                 Inr (st\<lparr>printed := printed st @ [Skipping k (length rows)]\<rparr>)"
    using len by (rule mover_body_wrong_length)
  have "\<exists>rest. fst (get_dataset (gs1 @ (k, rows) # gs2) fs p sh)
                     = printed st1 @ Skipping k (length rows) # rest
                 \<and> fst (get_dataset (gs1 @ gs2) fs p sh) = printed st1 @ rest"
    if "movers_loop fs p sh gs1 init_acc = Inr st1" for st1
    using skipped_group_printed [of fs p sh "(k, rows)" "[Skipping k (length rows)]" gs1 st1 gs2,
        OF skip that] by simp
  then show ?thesis
    using skip skipped_group_result [of fs p sh "(k, rows)" "[Skipping k (length rows)]" gs1 gs2, OF skip]
    by blast
qed


theorem wrong_length_skipped_witness:
  "length (add_label 1 [(''m4'', ''a.png''), (''m4'', ''a.png''), (''m4'', ''a.png'')]) \<noteq> 4
   \<and> fst (get_dataset ex_groups ex_images ''i/'' (1, 2)) = [Skipping ''m4'' 3]
   \<and> snd (get_dataset ex_groups ex_images ''i/'' (1, 2))
       = snd (get_dataset (take 3 ex_groups) ex_images ''i/'' (1, 2))"
proof -
  let ?rows = "add_label 1 [(''m4'', ''a.png''), (''m4'', ''a.png''), (''m4'', ''a.png'')]"
  have len: "length ?rows \<noteq> 4" by (simp add: add_label_def)
  have split: "ex_groups = take 3 ex_groups @ (''m4'', ?rows) # []"
    by (simp add: ex_groups_def)
  have out: "fst (get_dataset ex_groups ex_images ''i/'' (1, 2)) = [Skipping ''m4'' 3]"
    by code_simp
  from wrong_length_skipped [OF len, of ex_images "''i/''" "(1, 2)" _ "''m4''" "take 3 ex_groups" "[]"]
  have "snd (get_dataset (take 3 ex_groups @ (''m4'', ?rows) # []) ex_images ''i/'' (1, 2))
        = snd (get_dataset (take 3 ex_groups @ []) ex_images ''i/'' (1, 2))"
    by blast
  then have "snd (get_dataset ex_groups ex_images ''i/'' (1, 2))
        = snd (get_dataset (take 3 ex_groups) ex_images ''i/'' (1, 2))"
    using split by simp
  with len out show ?thesis by blast
qed

text \<open>
  C3, as the code has it. In a group of four rows with a missing image file no row after
  the first failing one is read, so the mover adds no sample. When the rows before the
  missing file all load and pass the shape test, the message
  \<^verbatim>\<open>Image of {mover_id} not found: {image_path}\<close> is printed: the body of the loop
  only prints it, and \<^verbatim>\<open>get_dataset\<close> returns what it returns without that group.
  When a row before the missing file leaves the row loop at the shape test, the missing
  file is never opened: the body of the loop changes nothing, and \<^verbatim>\<open>get_dataset\<close>
  prints and returns what it does without that group.
\<close>

theorem missing_image_skipped:
  "length rows = 4 \<Longrightarrow> r \<in> set rows \<Longrightarrow> fs (p @ file_name r) = Missing \<Longrightarrow>
     \<not> passes fs p sh (k, rows)
   \<and> (\<forall>st'. mover_body fs p sh st (k, rows) = Inr st' \<longrightarrow>
         x_tensors st' = x_tensors st \<and> y_hat_tensors st' = y_hat_tensors st
         \<and> mover_ids st' = mover_ids st)
   \<and> (\<forall>pre post. rows = pre @ r # post \<and> list_all (row_ok fs p sh) pre \<longrightarrow>
         mover_body fs p sh st (k, rows) =
           Inr (st\<lparr>printed := printed st @ [NotFound k (p @ file_name r)]\<rparr>)
         \<and> snd (get_dataset (gs1 @ (k, rows) # gs2) fs p sh)
             = snd (get_dataset (gs1 @ gs2) fs p sh)
         \<and> (\<forall>st1. movers_loop fs p sh gs1 init_acc = Inr st1 \<longrightarrow>
              (\<exists>rest. fst (get_dataset (gs1 @ (k, rows) # gs2) fs p sh)
                         = printed st1 @ NotFound k (p @ file_name r) # rest
                     \<and> fst (get_dataset (gs1 @ gs2) fs p sh) = printed st1 @ rest)))
   \<and> (\<forall>pre q post img. rows = pre @ q # post \<and> list_all (row_ok fs p sh) pre
           \<and> fs (p @ file_name q) = Picture img \<and> shape_mismatch (to_tensor img) sh \<longrightarrow>
         mover_body fs p sh st (k, rows) = Inr st
         \<and> get_dataset (gs1 @ (k, rows) # gs2) fs p sh = get_dataset (gs1 @ gs2) fs p sh)"
proof -
  assume len: "length rows = 4" and r: "r \<in> set rows" and miss: "fs (p @ file_name r) = Missing"
  have np: "\<not> passes fs p sh (k, rows)" using r miss by (rule missing_not_passes)
  have a: "x_tensors st' = x_tensors st \<and> y_hat_tensors st' = y_hat_tensors st
           \<and> mover_ids st' = mover_ids st"
    if "mover_body fs p sh st (k, rows) = Inr st'" for st'
    using mover_body_fails [OF np, of st] that by auto
  have b: "mover_body fs p sh st (k, rows) =
             Inr (st\<lparr>printed := printed st @ [NotFound k (p @ file_name r)]\<rparr>)
         \<and> snd (get_dataset (gs1 @ (k, rows) # gs2) fs p sh)
             = snd (get_dataset (gs1 @ gs2) fs p sh)
         \<and> (\<forall>st1. movers_loop fs p sh gs1 init_acc = Inr st1 \<longrightarrow>
              (\<exists>rest. fst (get_dataset (gs1 @ (k, rows) # gs2) fs p sh)
                         = printed st1 @ NotFound k (p @ file_name r) # rest
                     \<and> fst (get_dataset (gs1 @ gs2) fs p sh) = printed st1 @ rest))"
    if rows: "rows = pre @ r # post" and pre: "list_all (row_ok fs p sh) pre" for pre post
  proof -
    have skip: "\<And>st. mover_body fs p sh st (k, rows) =
                  Inr (st\<lparr>printed := printed st @ [NotFound k (p @ file_name r)]\<rparr>)"
      unfolding rows using len [unfolded rows] pre miss by (rule mover_body_first_missing)
    have "\<exists>rest. fst (get_dataset (gs1 @ (k, rows) # gs2) fs p sh)
                         = printed st1 @ NotFound k (p @ file_name r) # rest
                     \<and> fst (get_dataset (gs1 @ gs2) fs p sh) = printed st1 @ rest"
      if "movers_loop fs p sh gs1 init_acc = Inr st1" for st1
      using skipped_group_printed [of fs p sh "(k, rows)" "[NotFound k (p @ file_name r)]"
          gs1 st1 gs2, OF skip that] by simp
    then show ?thesis
      using skip skipped_group_result [of fs p sh "(k, rows)" "[NotFound k (p @ file_name r)]"
          gs1 gs2, OF skip]
      by blast
  qed
  have c: "mover_body fs p sh st (k, rows) = Inr st
         \<and> get_dataset (gs1 @ (k, rows) # gs2) fs p sh = get_dataset (gs1 @ gs2) fs p sh"
    if h: "rows = pre @ q # post \<and> list_all (row_ok fs p sh) pre
           \<and> fs (p @ file_name q) = Picture img \<and> shape_mismatch (to_tensor img) sh"
    for pre q post img
  proof -
    from h have rows: "rows = pre @ q # post" and pre: "list_all (row_ok fs p sh) pre"
      and img: "fs (p @ file_name q) = Picture img" and mm: "shape_mismatch (to_tensor img) sh"
      by simp_all
    have skip: "\<And>st. mover_body fs p sh st (k, rows) = Inr st"
      unfolding rows using len [unfolded rows] pre img mm by (rule mover_body_first_mismatch)
    from skip [of st] silent_group_result [of fs p sh "(k, rows)" gs1 gs2, OF skip]
    show ?thesis by simp
  qed
  from np a b c show ?thesis by blast
qed

theorem missing_image_skipped_witness:
  "length ex_late_rows = 4
   \<and> ex_late_rows ! 2 \<in> set ex_late_rows
   \<and> ex_images (''i/'' @ file_name (ex_late_rows ! 2)) = Missing
   \<and> list_all (row_ok ex_images ''i/'' (1, 2)) (take 2 ex_late_rows)
   \<and> \<not> passes ex_images ''i/'' (1, 2) (''m6'', ex_late_rows)
   \<and> mover_body ex_images ''i/'' (1, 2) init_acc (''m6'', ex_late_rows)
       = Inr (init_acc\<lparr>printed := printed init_acc @ [NotFound ''m6'' ''i/gone.png'']\<rparr>)
   \<and> snd (get_dataset (take 2 ex_groups @ (''m6'', ex_late_rows) # drop 2 ex_groups)
             ex_images ''i/'' (1, 2))
       = snd (get_dataset (take 2 ex_groups @ drop 2 ex_groups) ex_images ''i/'' (1, 2))
   \<and> length ex_gone_rows = 4
   \<and> ex_gone_rows ! 1 \<in> set ex_gone_rows
   \<and> ex_images (''i/'' @ file_name (ex_gone_rows ! 1)) = Missing
   \<and> ex_images (''i/'' @ file_name (ex_gone_rows ! 0)) = Picture (frame 3 3)
   \<and> shape_mismatch (to_tensor (frame 3 3)) (1, 2)
   \<and> mover_body ex_images ''i/'' (1, 2) init_acc (''m5'', ex_gone_rows) = Inr init_acc
   \<and> get_dataset ([ex_groups ! 0] @ (''m5'', ex_gone_rows) # []) ex_images ''i/'' (1, 2)
       = get_dataset ([ex_groups ! 0] @ []) ex_images ''i/'' (1, 2)"
proof -
  let ?r = "ex_late_rows ! 2"
  have len: "length ex_late_rows = 4" by (simp add: ex_late_rows_def add_label_def)
  have mem: "?r \<in> set ex_late_rows" by (simp add: ex_late_rows_def add_label_def)
  have fn: "file_name ?r = ''gone.png''"
    by (simp add: ex_late_rows_def add_label_def)
  have miss: "ex_images (''i/'' @ file_name ?r) = Missing"
    by (simp add: fn ex_images_def)
  have rows: "ex_late_rows = take 2 ex_late_rows @ ?r # drop 3 ex_late_rows"
    by (simp add: ex_late_rows_def add_label_def)
  have pre: "list_all (row_ok ex_images ''i/'' (1, 2)) (take 2 ex_late_rows)"
    by code_simp
  from missing_image_skipped [of ex_late_rows ?r ex_images "''i/''" "(1, 2)" "''m6''" init_acc
      "take 2 ex_groups" "drop 2 ex_groups", OF len mem miss] rows pre
  have "\<not> passes ex_images ''i/'' (1, 2) (''m6'', ex_late_rows)
     \<and> mover_body ex_images ''i/'' (1, 2) init_acc (''m6'', ex_late_rows)
         = Inr (init_acc\<lparr>printed := printed init_acc @ [NotFound ''m6'' (''i/'' @ file_name ?r)]\<rparr>)
     \<and> snd (get_dataset (take 2 ex_groups @ (''m6'', ex_late_rows) # drop 2 ex_groups)
             ex_images ''i/'' (1, 2))
       = snd (get_dataset (take 2 ex_groups @ drop 2 ex_groups) ex_images ''i/'' (1, 2))"
    by blast
  then have one: "\<not> passes ex_images ''i/'' (1, 2) (''m6'', ex_late_rows)
     \<and> mover_body ex_images ''i/'' (1, 2) init_acc (''m6'', ex_late_rows)
         = Inr (init_acc\<lparr>printed := printed init_acc @ [NotFound ''m6'' ''i/gone.png'']\<rparr>)
     \<and> snd (get_dataset (take 2 ex_groups @ (''m6'', ex_late_rows) # drop 2 ex_groups)
             ex_images ''i/'' (1, 2))
       = snd (get_dataset (take 2 ex_groups @ drop 2 ex_groups) ex_images ''i/'' (1, 2))"
    by (simp add: fn)
  let ?g = "ex_gone_rows ! 1" and ?q = "ex_gone_rows ! 0"
  have len': "length ex_gone_rows = 4" by (simp add: ex_gone_rows_def add_label_def)
  have mem': "?g \<in> set ex_gone_rows" by (simp add: ex_gone_rows_def add_label_def)
  have miss': "ex_images (''i/'' @ file_name ?g) = Missing"
    by (simp add: ex_gone_rows_def add_label_def ex_images_def)
  have img': "ex_images (''i/'' @ file_name ?q) = Picture (frame 3 3)"
    by (simp add: ex_gone_rows_def add_label_def ex_images_def)
  have mm': "shape_mismatch (to_tensor (frame 3 3)) (1, 2)"
    by (simp add: shape_mismatch_def to_tensor_def frame_def)
  have rows': "ex_gone_rows = [] @ ?q # drop 1 ex_gone_rows"
    by (simp add: ex_gone_rows_def add_label_def)
  have pre': "list_all (row_ok ex_images ''i/'' (1, 2)) []" by simp
  note t = missing_image_skipped [of ex_gone_rows ?g ex_images "''i/''" "(1, 2)" "''m5''"
      init_acc "[ex_groups ! 0]" "[]", OF len' mem' miss']
  note s = t [THEN conjunct2, THEN conjunct2, THEN conjunct2, rule_format,
      of "[]" ?q "drop 1 ex_gone_rows" "frame 3 3",
      OF conjI [OF rows' conjI [OF pre' conjI [OF img' mm']]]]
  note two = s [THEN conjunct1] s [THEN conjunct2]
  show ?thesis
    by (intro conjI)
       (rule len mem miss pre one [THEN conjunct1] one [THEN conjunct2, THEN conjunct1]
          one [THEN conjunct2, THEN conjunct2] len' mem' miss' img' mm' two)+
qed

text \<open>
  C3 as stated fails: when an earlier row of the group leaves the loop at the shape
  test, the missing file is never opened and nothing is printed. Here the first frame
  of mover \<open>m5\<close> has height 3 where 2 is expected and its second file is missing.
\<close>

theorem missing_image_silent:
  "length ex_gone_rows = 4
   \<and> file_name (ex_gone_rows ! 1) = ''gone.png''
   \<and> ex_images ''i/gone.png'' = Missing
   \<and> get_dataset [ex_groups ! 0, (''m5'', ex_gone_rows)] ex_images ''i/'' (1, 2)
       = ([], Inr (\<lparr>ds_x = \<lparr>shape = [1, 1, 4, 2, 3],
                            data = concat (replicate 4 [0, 1, 2, 3, 4, 5])\<rparr>,
                     ds_y = \<lparr>shape = [1, 1], data = [1]\<rparr>\<rparr>, [''m1'']))"
proof -
  have a: "length ex_gone_rows = 4" "file_name (ex_gone_rows ! 1) = ''gone.png''"
    by (simp_all add: ex_gone_rows_def add_label_def)
  have b: "ex_images ''i/gone.png'' = Missing" by (simp add: ex_images_def)
  have c: "get_dataset [ex_groups ! 0, (''m5'', ex_gone_rows)] ex_images ''i/'' (1, 2)
       = ([], Inr (\<lparr>ds_x = \<lparr>shape = [1, 1, 4, 2, 3],
                            data = concat (replicate 4 [0, 1, 2, 3, 4, 5])\<rparr>,
                     ds_y = \<lparr>shape = [1, 1], data = [1]\<rparr>\<rparr>, [''m1'']))"
    by code_simp
  from a b c show ?thesis by blast
qed

text \<open>
  C4 at a failing input. With \<^verbatim>\<open>image_shape = (1, 1)\<close>, four frames of height 1 and
  width 2 do not have the expected dimensions, and the mover contributes a sample all
  the same: the test reads the channel count and the height, never the width.
\<close>

theorem wrong_width_accepted:
  "img_height (frame 1 2) = 1 \<and> img_width (frame 1 2) = 2
   \<and> list_all (\<lambda>r. file_name r = ''wide.png'') ex_wide_rows
   \<and> get_dataset [(''m7'', ex_wide_rows)] ex_images ''i/'' (1, 1)
       = ([], Inr (\<lparr>ds_x = \<lparr>shape = [1, 1, 4, 1, 2], data = [0, 1, 0, 1, 0, 1, 0, 1]\<rparr>,
                     ds_y = \<lparr>shape = [1, 1], data = [1]\<rparr>\<rparr>, [''m7'']))"
proof -
  have a: "img_height (frame 1 2) = 1 \<and> img_width (frame 1 2) = 2" by (simp add: frame_def)
  have b: "list_all (\<lambda>r. file_name r = ''wide.png'') ex_wide_rows"
    by (simp add: ex_wide_rows_def add_label_def)
  have c: "get_dataset [(''m7'', ex_wide_rows)] ex_images ''i/'' (1, 1)
       = ([], Inr (\<lparr>ds_x = \<lparr>shape = [1, 1, 4, 1, 2], data = [0, 1, 0, 1, 0, 1, 0, 1]\<rparr>,
                     ds_y = \<lparr>shape = [1, 1], data = [1]\<rparr>\<rparr>, [''m7'']))"
    by code_simp
  from a b c show ?thesis by blast
qed

text \<open>
  C5, as the code has it. When no mover group passes the checks, \<^verbatim>\<open>get_dataset\<close>
  returns no dataset. Whenever the loop over the movers runs to its end, the error is
  the one of \<^verbatim>\<open>torch.concat\<close> on the empty list \<^verbatim>\<open>x_tensors\<close>; it does so when
  opening an image raises nothing but \<^verbatim>\<open>FileNotFoundError\<close>.
\<close>

theorem empty_dataset_fails:
  "filter (passes fs p sh) gs = [] \<Longrightarrow>
     (\<forall>out ds ids. get_dataset gs fs p sh \<noteq> (out, Inr (ds, ids)))
   \<and> (\<forall>st. movers_loop fs p sh gs init_acc = Inr st \<longrightarrow>
         get_dataset gs fs p sh = (printed st, Inl CatEmptyList))
   \<and> (readable fs p gs \<longrightarrow> snd (get_dataset gs fs p sh) = Inl CatEmptyList)"
proof -
  assume none: "filter (passes fs p sh) gs = []"
  have a: "get_dataset gs fs p sh \<noteq> (out, Inr (ds, ids))" for out ds ids
    using get_dataset_Inr_ids [of gs fs p sh out ds ids] none by auto
  have b: "get_dataset gs fs p sh = (printed st, Inl CatEmptyList)"
    if "movers_loop fs p sh gs init_acc = Inr st" for st
    using none that by (rule get_dataset_none_pass)
  have c: "snd (get_dataset gs fs p sh) = Inl CatEmptyList" if "readable fs p gs"
    using none that by (rule get_dataset_none_pass_readable)
  from a b c show ?thesis by blast
qed

theorem empty_dataset_fails_witness:
  "filter (passes ex_images ''i/'' (1, 2)) [ex_groups ! 3] = []
   \<and> readable ex_images ''i/'' [ex_groups ! 3]
   \<and> movers_loop ex_images ''i/'' (1, 2) [ex_groups ! 3] init_acc
       = Inr (init_acc\<lparr>printed := [Skipping ''m4'' 3]\<rparr>)
   \<and> get_dataset [ex_groups ! 3] ex_images ''i/'' (1, 2) = ([Skipping ''m4'' 3], Inl CatEmptyList)"
proof -
  have none: "filter (passes ex_images ''i/'' (1, 2)) [ex_groups ! 3] = []"
    by code_simp
  have rd: "readable ex_images ''i/'' [ex_groups ! 3]"
    by code_simp
  have loop: "movers_loop ex_images ''i/'' (1, 2) [ex_groups ! 3] init_acc
                = Inr (init_acc\<lparr>printed := [Skipping ''m4'' 3]\<rparr>)"
    by code_simp
  from empty_dataset_fails [OF none] loop
  have "get_dataset [ex_groups ! 3] ex_images ''i/'' (1, 2)
          = (printed (init_acc\<lparr>printed := [Skipping ''m4'' 3]\<rparr>), Inl CatEmptyList)"
    by blast
  with none rd loop show ?thesis by simp
qed

text \<open>
  C5 as stated fails: the error need not be the one of the final concatenation. Here no
  mover passes the checks, and the first file of mover \<open>m6\<close> exists but cannot be
  decoded; \<^verbatim>\<open>Image.open\<close> raises an error that the \<^verbatim>\<open>except FileNotFoundError\<close> clause
  does not catch, and \<^verbatim>\<open>get_dataset\<close> ends with it before \<^verbatim>\<open>torch.concat\<close> is reached.
\<close>

theorem unreadable_before_concat:
  "length ex_bad_rows = 4
   \<and> file_name (ex_bad_rows ! 0) = ''bad.png''
   \<and> row_readable ex_images ''i/'' (ex_bad_rows ! 0) = False
   \<and> filter (passes ex_images ''i/'' (1, 2)) [(''m6'', ex_bad_rows)] = []
   \<and> get_dataset [(''m6'', ex_bad_rows)] ex_images ''i/'' (1, 2) = ([], Inl ImageOpenError)
   \<and> ImageOpenError \<noteq> CatEmptyList"
proof -
  have a: "length ex_bad_rows = 4" "file_name (ex_bad_rows ! 0) = ''bad.png''"
    by (simp_all add: ex_bad_rows_def add_label_def)
  have b: "row_readable ex_images ''i/'' (ex_bad_rows ! 0) = False" by code_simp
  have c: "filter (passes ex_images ''i/'' (1, 2)) [(''m6'', ex_bad_rows)] = []" by code_simp
  have d: "get_dataset [(''m6'', ex_bad_rows)] ex_images ''i/'' (1, 2) = ([], Inl ImageOpenError)"
    by code_simp
  have e: "ImageOpenError \<noteq> CatEmptyList" by simp
  show ?thesis by (intro conjI) (rule a b c d e)+
qed

text \<open>
  C9. The shape test compares dimension 0 of the image tensor, which is 1, with
  \<^verbatim>\<open>image_shape[0]\<close> and dimension 1, the height, with \<^verbatim>\<open>image_shape[1]\<close>. A mover
  can pass, and \<^verbatim>\<open>get_dataset\<close> can return a dataset, only when \<^verbatim>\<open>image_shape[0]\<close>
  is 1. With the default \<^verbatim>\<open>(30, 30)\<close> no row and no mover passes, and \<^verbatim>\<open>get_dataset\<close>
  ends in the error of the empty concatenation.
\<close>

theorem shape_check_dims:
  "(shape_mismatch (to_tensor img) sh \<longleftrightarrow> 1 \<noteq> fst sh \<or> int (img_height img) \<noteq> snd sh)
   \<and> (passes fs p sh g \<longrightarrow> fst sh = 1)
   \<and> (get_dataset gs fs p sh = (out, Inr (ds, ids)) \<longrightarrow> fst sh = 1)
   \<and> \<not> row_ok fs p default_image_shape r
   \<and> filter (passes fs p default_image_shape) gs = []
   \<and> (readable fs p gs \<longrightarrow> snd (get_dataset gs fs p default_image_shape) = Inl CatEmptyList)"
proof -
  have a: "shape_mismatch (to_tensor img) sh \<longleftrightarrow> 1 \<noteq> fst sh \<or> int (img_height img) \<noteq> snd sh"
    by (auto simp: shape_mismatch_def to_tensor_def)
  have b: "fst sh = 1" if "passes fs p sh g"
    using that by (rule passes_channel)
  have c: "fst sh = 1" if "get_dataset gs fs p sh = (out, Inr (ds, ids))"
  proof -
    from get_dataset_Inr_ids [OF that] have "filter (passes fs p sh) gs \<noteq> []" by auto
    then obtain g where "g \<in> set gs" "passes fs p sh g"
      by (auto simp: filter_empty_conv)
    then show ?thesis by (auto dest: passes_channel)
  qed
  have d: "\<not> row_ok fs p default_image_shape r"
    by (auto simp: row_ok_def shape_mismatch_def to_tensor_def default_image_shape_def
             split: file_entry.splits)
  have e: "filter (passes fs p default_image_shape) gs = []"
    using passes_channel [of fs p default_image_shape]
    by (auto simp: filter_empty_conv default_image_shape_def)
  have f: "snd (get_dataset gs fs p default_image_shape) = Inl CatEmptyList" if "readable fs p gs"
    using e that by (rule get_dataset_none_pass_readable)
  from a b c d e f show ?thesis by blast
qed

theorem shape_check_dims_witness:
  "passes ex_images ''i/'' (1, 2) (ex_groups ! 0)
   \<and> fst ((1, 2) :: int \<times> int) = 1
   \<and> readable ex_images ''i/'' ex_groups
   \<and> snd (get_dataset ex_groups ex_images ''i/'' default_image_shape) = Inl CatEmptyList"
proof -
  have ps: "passes ex_images ''i/'' (1, 2) (ex_groups ! 0)" by code_simp
  have rd: "readable ex_images ''i/'' ex_groups" by code_simp
  from shape_check_dims [of _ "(1, 2)" ex_images "''i/''" "ex_groups ! 0" ex_groups] ps rd
  show ?thesis by blast
qed

text \<open>
  C8, as the code has it. \<^verbatim>\<open>get_dataframe\<close> gives label 1 to every row of
  \<^verbatim>\<open>movers_images_lookup.csv\<close> and label 0 to every row of
  \<^verbatim>\<open>rejected_movers_images_lookup.csv\<close>, pools them and groups the pool by
  \<^verbatim>\<open>mover_id\<close>. A group whose mover occurs in one table only has one label throughout.
  In every group the first row has label 1 exactly when the mover occurs in the first
  table, and that first row is where a sample's label comes from.
\<close>

theorem labels_from_tables:
  "csvs (d @ ''movers_images_lookup.csv'') = Table real \<Longrightarrow>
   csvs (d @ ''rejected_movers_images_lookup.csv'') = Table bogus \<Longrightarrow>
     get_dataframe csvs d = Inr (groupby (add_label 1 real @ add_label 0 bogus))
   \<and> (\<forall>r\<in>set (add_label 1 real). label r = 1)
   \<and> (\<forall>r\<in>set (add_label 0 bogus). label r = 0)
   \<and> (\<forall>g\<in>set (groupby (add_label 1 real @ add_label 0 bogus)).
         snd g = filter (\<lambda>r. mover_id r = fst g) (add_label 1 real @ add_label 0 bogus)
         \<and> snd g \<noteq> []
         \<and> (fst g \<notin> fst ` set bogus \<longrightarrow> (\<forall>r\<in>set (snd g). label r = 1))
         \<and> (fst g \<notin> fst ` set real \<longrightarrow> (\<forall>r\<in>set (snd g). label r = 0))
         \<and> label (hd (snd g)) = (if fst g \<in> fst ` set real then 1 else 0))
   \<and> (\<forall>st st' g. mover_body fs p sh st g = Inr st' \<and> mover_ids st' \<noteq> mover_ids st \<longrightarrow>
         y_hat_tensors st' = y_hat_tensors st @ [label_tensor g])"
proof -
  assume r: "csvs (d @ ''movers_images_lookup.csv'') = Table real"
    and b: "csvs (d @ ''rejected_movers_images_lookup.csv'') = Table bogus"
  let ?pool = "add_label 1 real @ add_label 0 bogus"
  have a: "get_dataframe csvs d = Inr (groupby ?pool)"
    using r b by (rule get_dataframe_tables)
  have l1: "\<forall>r\<in>set (add_label 1 real). label r = 1" by (auto dest: add_label_label)
  have l0: "\<forall>r\<in>set (add_label 0 bogus). label r = 0" by (auto dest: add_label_label)
  have g: "snd g = filter (\<lambda>r. mover_id r = fst g) ?pool
         \<and> snd g \<noteq> []
         \<and> (fst g \<notin> fst ` set bogus \<longrightarrow> (\<forall>r\<in>set (snd g). label r = 1))
         \<and> (fst g \<notin> fst ` set real \<longrightarrow> (\<forall>r\<in>set (snd g). label r = 0))
         \<and> label (hd (snd g)) = (if fst g \<in> fst ` set real then 1 else 0)"
    if "g \<in> set (groupby ?pool)" for g
    using groupby_member [OF that] groupby_nonempty [OF that] group_labels [OF that]
    by blast
  have m: "y_hat_tensors st' = y_hat_tensors st @ [label_tensor g]"
    if "mover_body fs p sh st g = Inr st' \<and> mover_ids st' \<noteq> mover_ids st"
    for st st' :: "'b acc" and g
    using that mover_body_label by blast
  from a l1 l0 g m show ?thesis by blast
qed

theorem labels_from_tables_witness:
  "ex_csvs (''d/'' @ ''movers_images_lookup.csv'') = Table ex_real_table
   \<and> ex_csvs (''d/'' @ ''rejected_movers_images_lookup.csv'') = Table ex_bogus_table
   \<and> get_dataframe ex_csvs ''d/'' = Inr ex_groups
   \<and> ex_groups ! 2 \<in> set ex_groups
   \<and> fst (ex_groups ! 2) \<notin> fst ` set ex_real_table
   \<and> list_all (\<lambda>r. label r = 0) (snd (ex_groups ! 2))
   \<and> label (hd (snd (ex_groups ! 2))) = 0"
proof -
  have r: "ex_csvs (''d/'' @ ''movers_images_lookup.csv'') = Table ex_real_table"
    by (simp add: ex_csvs_def)
  have b: "ex_csvs (''d/'' @ ''rejected_movers_images_lookup.csv'') = Table ex_bogus_table"
    by (simp add: ex_csvs_def)
  have g: "ex_groups ! 2 \<in> set ex_groups" by (simp add: ex_groups_def)
  have k: "fst (ex_groups ! 2) \<notin> fst ` set ex_real_table"
    by (simp add: ex_groups_def ex_real_table_def)
  note t = labels_from_tables [OF r b, unfolded ex_pool]
  from t have df: "get_dataframe ex_csvs ''d/'' = Inr ex_groups" by blast
  from t g k have "\<forall>r\<in>set (snd (ex_groups ! 2)). label r = 0" by blast
  then have l: "list_all (\<lambda>r. label r = 0) (snd (ex_groups ! 2))"
    by (simp add: list_all_iff)
  from t g have "label (hd (snd (ex_groups ! 2)))
                  = (if fst (ex_groups ! 2) \<in> fst ` set ex_real_table then 1 else 0)"
    by blast
  with k have h: "label (hd (snd (ex_groups ! 2))) = 0" by simp
  from r b df g k l h show ?thesis by blast
qed

text \<open>
  C8 as stated fails: a mover that occurs in both tables has a group with both labels.
\<close>

theorem shared_mover_mixed_labels:
  "get_dataframe ex_shared_csvs ''d/''
     = Inr [(''m9'', add_label 1 [(''m9'', ''a.png''), (''m9'', ''a.png'')]
                     @ add_label 0 [(''m9'', ''b.png''), (''m9'', ''b.png'')])]
   \<and> map label (add_label 1 [(''m9'', ''a.png''), (''m9'', ''a.png'')]
                  @ add_label 0 [(''m9'', ''b.png''), (''m9'', ''b.png'')]) = [1, 1, 0, 0]"
proof -
  have a: "get_dataframe ex_shared_csvs ''d/''
     = Inr [(''m9'', add_label 1 [(''m9'', ''a.png''), (''m9'', ''a.png'')]
                     @ add_label 0 [(''m9'', ''b.png''), (''m9'', ''b.png'')])]"
    by code_simp
  have b: "map label (add_label 1 [(''m9'', ''a.png''), (''m9'', ''a.png'')]
                  @ add_label 0 [(''m9'', ''b.png''), (''m9'', ''b.png'')]) = [1, 1, 0, 0]"
    by (simp add: add_label_def)
  from a b show ?thesis by blast
qed

text \<open>
  C10. The groups that \<^verbatim>\<open>get_dataframe\<close> returns come in ascending order of
  \<^verbatim>\<open>mover_id\<close>, each mover once; \<^verbatim>\<open>get_dataset\<close> runs through them in that order, so
  the \<^verbatim>\<open>mover_ids\<close> it returns are those of the passing groups, ascending and without
  repetition. Both functions are functions of their inputs: the order is the same at
  every run.
\<close>

theorem groups_ascending:
  "get_dataframe csvs d = Inr gs \<Longrightarrow>
     sorted (map fst gs) \<and> distinct (map fst gs)
   \<and> (get_dataset gs fs p sh = (out, Inr (ds, ids)) \<longrightarrow>
        ids = map fst (filter (passes fs p sh) gs) \<and> sorted ids \<and> distinct ids)"
proof -
  assume "get_dataframe csvs d = Inr gs"
  then obtain rows where gs: "gs = groupby rows" using get_dataframe_Inr by blast
  have s: "sorted (map fst gs)" and di: "distinct (map fst gs)"
    using groupby_keys_sorted [of rows] by (simp_all add: gs)
  have "ids = map fst (filter (passes fs p sh) gs) \<and> sorted ids \<and> distinct ids"
    if "get_dataset gs fs p sh = (out, Inr (ds, ids))"
  proof -
    from get_dataset_Inr_ids [OF that] have i: "ids = map fst (filter (passes fs p sh) gs)"
      by simp
    from s have "sorted (map fst (filter (passes fs p sh) gs))" by (rule sorted_filter)
    moreover from di have "distinct (map fst (filter (passes fs p sh) gs))"
      by (rule distinct_map_filter)
    ultimately show ?thesis using i by simp
  qed
  with s di show ?thesis by blast
qed

theorem groups_ascending_witness:
  "get_dataframe ex_csvs ''d/'' = Inr ex_groups
   \<and> map fst ex_groups = [''m1'', ''m2'', ''m3'', ''m4'']
   \<and> sorted [''m1'', ''m2'', ''m3'', ''m4'']
   \<and> snd (get_dataset ex_groups ex_images ''i/'' (1, 2))
       = Inr (\<lparr>ds_x = \<lparr>shape = [3, 1, 4, 2, 3],
                        data = concat (replicate 12 [0, 1, 2, 3, 4, 5])\<rparr>,
                ds_y = \<lparr>shape = [3, 1], data = [1, 1, 0]\<rparr>\<rparr>, [''m1'', ''m2'', ''m3''])
   \<and> sorted [''m1'', ''m2'', ''m3'']"
proof -
  have k: "map fst ex_groups = [''m1'', ''m2'', ''m3'', ''m4'']" by (simp add: ex_groups_def)
  note t = groups_ascending [OF ex_dataframe, of ex_images "''i/''" "(1, 2)"
      "[Skipping ''m4'' 3]" _ "[''m1'', ''m2'', ''m3'']"]
  from t have s: "sorted [''m1'', ''m2'', ''m3'', ''m4'']" by (simp only: k)
  from t ex_run have s': "sorted [''m1'', ''m2'', ''m3'']" by blast
  from ex_dataframe k s s' ex_run show ?thesis by simp
qed

text \<open>
  C1 at a failing input. With the default \<^verbatim>\<open>image_shape = (30, 30)\<close>, a mover with four
  rows whose frames all load and have height 30 and width 30 adds no sample: the shape
  test compares the channel count 1 with 30, every frame is rejected, and
  \<^verbatim>\<open>get_dataset\<close> ends at the concatenation of the empty list \<^verbatim>\<open>x_tensors\<close>. Where the
  test lets a group through, with \<^verbatim>\<open>image_shape = (1, 1)\<close> and four frames of height 1
  and width 1, the stacked tensor has the five dimensions \<open>(1, 1, 4, 1, 1)\<close>, not
  \<open>(1, 1, 4H, W)\<close>, and the label tensor has shape \<open>(1, 1)\<close>, not \<open>(N, 1, 1)\<close>.
\<close>

theorem matching_frames_rejected:
  "default_image_shape = (30, 30)
   \<and> img_height (frame 30 30) = 30 \<and> img_width (frame 30 30) = 30
   \<and> length ex_square_rows = 4
   \<and> list_all (\<lambda>r. file_name r = ''sq.png'') ex_square_rows
   \<and> get_dataset [(''m0'', ex_square_rows)] ex_images ''i/'' default_image_shape
       = ([], Inl CatEmptyList)
   \<and> img_height (frame 1 1) = 1 \<and> img_width (frame 1 1) = 1
   \<and> list_all (\<lambda>r. file_name r = ''dot.png'') ex_dot_rows
   \<and> get_dataset [(''m8'', ex_dot_rows)] ex_images ''i/'' (1, 1)
       = ([], Inr (\<lparr>ds_x = \<lparr>shape = [1, 1, 4, 1, 1], data = [0, 0, 0, 0]\<rparr>,
                     ds_y = \<lparr>shape = [1, 1], data = [1]\<rparr>\<rparr>, [''m8'']))"
proof -
  have a: "default_image_shape = (30, 30)" by (simp add: default_image_shape_def)
  have b: "img_height (frame 30 30) = 30" "img_width (frame 30 30) = 30"
    "img_height (frame 1 1) = 1" "img_width (frame 1 1) = 1"
    by (simp_all add: frame_def)
  have c: "length ex_square_rows = 4" "list_all (\<lambda>r. file_name r = ''sq.png'') ex_square_rows"
    by (simp_all add: ex_square_rows_def add_label_def)
  have d: "get_dataset [(''m0'', ex_square_rows)] ex_images ''i/'' default_image_shape
       = ([], Inl CatEmptyList)"
    by code_simp
  have e: "list_all (\<lambda>r. file_name r = ''dot.png'') ex_dot_rows"
    by (simp add: ex_dot_rows_def add_label_def)
  have f: "get_dataset [(''m8'', ex_dot_rows)] ex_images ''i/'' (1, 1)
       = ([], Inr (\<lparr>ds_x = \<lparr>shape = [1, 1, 4, 1, 1], data = [0, 0, 0, 0]\<rparr>,
                     ds_y = \<lparr>shape = [1, 1], data = [1]\<rparr>\<rparr>, [''m8'']))"
    by code_simp
  show ?thesis by (intro conjI) (rule a b c d e f)+
qed

text \<open>
  C6. When \<^verbatim>\<open>get_dataset\<close> returns, the dataset has as many samples as \<^verbatim>\<open>mover_ids\<close>
  has entries, which are the identifiers of the groups that pass the checks, in order.
  The \<open>i\<close>-th sample belongs to the \<open>i\<close>-th of them: its label is the label of that
  group's first row and its image data are the grey values of that group's four frames.
\<close>

theorem dataset_aligned:
  "get_dataset gs fs p sh = (out, Inr (ds, ids)) \<Longrightarrow>
     dataset_len ds = length ids
   \<and> length ids = length (filter (passes fs p sh) gs)
   \<and> ids = map fst (filter (passes fs p sh) gs)
   \<and> (\<forall>i<length ids.
         snd (dataset_item ds i)
           = \<lparr>shape = [1], data = [label (hd (snd (filter (passes fs p sh) gs ! i)))]\<rparr>
         \<and> data (fst (dataset_item ds i))
           = concat (map (frame_data fs p) (snd (filter (passes fs p sh) gs ! i))))"
proof -
  let ?ps = "filter (passes fs p sh) gs"
  assume r: "get_dataset gs fs p sh = (out, Inr (ds, ids))"
  from get_dataset_Inr_structure [OF r] obtain xs s
    where a: "list_all2 (\<lambda>x g. cat (map (row_tensor fs p) (snd g)) 2 = Inr x) xs ?ps"
      and u: "\<forall>u\<in>set xs. shape u = 1 # s \<and> length (data u) = prod_list s"
      and X: "ds_x ds = \<lparr>shape = length ?ps # s, data = concat (map data xs)\<rparr>"
      and Y: "ds_y ds = \<lparr>shape = [length ?ps, 1], data = map (\<lambda>g. label (hd (snd g))) ?ps\<rparr>"
      and ids: "ids = map fst ?ps"
    by blast
  have len: "length xs = length ?ps" using a by (rule list_all2_lengthD)
  have n: "dataset_len ds = length ids" by (simp add: dataset_len_def X ids)
  have item: "snd (dataset_item ds i) = \<lparr>shape = [1], data = [label (hd (snd (?ps ! i)))]\<rparr>
         \<and> data (fst (dataset_item ds i)) = concat (map (frame_data fs p) (snd (?ps ! i)))"
    if "i < length ids" for i
  proof -
    from that have i: "i < length ?ps" by (simp add: ids)
    let ?g = "?ps ! i"
    have y: "snd (dataset_item ds i) = \<lparr>shape = [1], data = [label (hd (snd ?g))]\<rparr>"
      using i by (simp add: dataset_item_def select0_def Y take1_drop)
    have "select0 \<lparr>shape = length xs # s, data = concat (map data xs)\<rparr> i
            = \<lparr>shape = s, data = data (xs ! i)\<rparr>"
      using u i len by (intro select0_cat0) auto
    then have x: "data (fst (dataset_item ds i)) = data (xs ! i)"
      by (simp add: dataset_item_def X len)
    from i len have i': "i < length xs" by simp
    from list_all2_nthD [OF a i'] have c: "cat (map (row_tensor fs p) (snd ?g)) 2 = Inr (xs ! i)" .
    from i have "?g \<in> set ?ps" by (rule nth_mem)
    then have "passes fs p sh ?g" by simp
    then have ok: "list_all (row_ok fs p sh) (snd ?g)" by (simp add: passes_def)
    from stack_rows [OF ok c] have "data (xs ! i) = concat (map (frame_data fs p) (snd ?g))"
      by blast
    with x y show ?thesis by simp
  qed
  from n ids item show ?thesis by simp
qed

theorem dataset_aligned_witness:
  "get_dataset ex_groups ex_images ''i/'' (1, 2)
     = ([Skipping ''m4'' 3],
        Inr (\<lparr>ds_x = \<lparr>shape = [3, 1, 4, 2, 3],
                      data = concat (replicate 12 [0, 1, 2, 3, 4, 5])\<rparr>,
              ds_y = \<lparr>shape = [3, 1], data = [1, 1, 0]\<rparr>\<rparr>,
             [''m1'', ''m2'', ''m3'']))
   \<and> dataset_len \<lparr>ds_x = \<lparr>shape = [3, 1, 4, 2, 3],
                           data = concat (replicate 12 [0, 1, 2, 3, 4, 5])\<rparr>,
                   ds_y = \<lparr>shape = [3, 1], data = [1, 1, 0]\<rparr>\<rparr> = length [''m1'', ''m2'', ''m3'']
   \<and> [''m1'', ''m2'', ''m3''] = map fst (filter (passes ex_images ''i/'' (1, 2)) ex_groups)
   \<and> snd (dataset_item \<lparr>ds_x = \<lparr>shape = [3, 1, 4, 2, 3],
                                 data = concat (replicate 12 [0, 1, 2, 3, 4, 5])\<rparr>,
                         ds_y = \<lparr>shape = [3, 1], data = [1, 1, 0]\<rparr>\<rparr> 2)
       = \<lparr>shape = [1],
          data = [label (hd (snd (filter (passes ex_images ''i/'' (1, 2)) ex_groups ! 2)))]\<rparr>"
proof -
  note t = dataset_aligned [OF ex_run]
  note a = t [THEN conjunct1]
  note c = t [THEN conjunct2, THEN conjunct2, THEN conjunct1]
  note d = t [THEN conjunct2, THEN conjunct2, THEN conjunct2, rule_format, of 2]
  have "(2::nat) < length [''m1'', ''m2'', ''m3'']" by simp
  note e = d [OF this, THEN conjunct1]
  show ?thesis by (intro conjI) (rule ex_run a c e)+
qed

end
